theory Spec2Isabelle
  imports Complex_Main "HOL-Library.Sublist"
begin

section \<open>JavaScript values, numbers and errors\<close>

text \<open>
  The TypeScript sources pass \<open>any\<close>-typed data around (tool inputs, usage objects), and
  several of the properties below depend on what JavaScript does with a missing field, a
  \<open>null\<close> object or a number that is not a number. Those behaviours are written out here.

  A JavaScript number is an IEEE 754 double: \<open>NaN\<close>, an infinity (\<open>Infinity True\<close> is the
  positive one) or a finite value, held as the rational it denotes. The sign of a zero
  is not kept; no operation of the sources divides by a number that could be a zero.

  The operations \<open>+\<close>, \<open>*\<close> and \<open>/\<close> on finite doubles return the exact result rounded
  to a double, or an infinity when it is out of range, and a decimal literal denotes the
  rounded value of its digits. The rounding is the runtime's and is a parameter
  (\<open>rounding\<close>) of every function that computes with numbers; the theorems below hold
  for every rounding.
\<close>

datatype jsnum = NaN | Infinity bool | Num rat

datatype rounded = Finite rat | Overflow bool

type_synonym rounding = "rat \<Rightarrow> rounded"

fun of_rounded :: "rounded \<Rightarrow> jsnum" where
  "of_rounded (Finite q) = Num q"
| "of_rounded (Overflow positive) = Infinity positive"

text \<open>\<open>x + y\<close>.\<close>

fun js_add :: "rounding \<Rightarrow> jsnum \<Rightarrow> jsnum \<Rightarrow> jsnum" where
  "js_add R (Num a) (Num b) = of_rounded (R (a + b))"
| "js_add R (Infinity s) (Num b) = Infinity s"
| "js_add R (Num a) (Infinity t) = Infinity t"
| "js_add R (Infinity s) (Infinity t) = (if s = t then Infinity s else NaN)"
| "js_add R NaN y = NaN"
| "js_add R x NaN = NaN"

text \<open>\<open>x * y\<close>: an infinity times zero is \<open>NaN\<close>.\<close>

fun js_mul :: "rounding \<Rightarrow> jsnum \<Rightarrow> jsnum \<Rightarrow> jsnum" where
  "js_mul R (Num a) (Num b) = of_rounded (R (a * b))"
| "js_mul R (Infinity s) (Num b) = (if b = 0 then NaN else Infinity (s = (0 < b)))"
| "js_mul R (Num a) (Infinity t) = (if a = 0 then NaN else Infinity (t = (0 < a)))"
| "js_mul R (Infinity s) (Infinity t) = Infinity (s = t)"
| "js_mul R NaN y = NaN"
| "js_mul R x NaN = NaN"

text \<open>\<open>x / 1000\<close>; the divisor is the literal 1000 at every use in the sources.\<close>

fun per_thousand :: "rounding \<Rightarrow> jsnum \<Rightarrow> jsnum" where
  "per_thousand R (Num a) = of_rounded (R (a / 1000))"
| "per_thousand R (Infinity s) = Infinity s"
| "per_thousand R NaN = NaN"

text \<open>
  A numeric field of an object is a \<open>jsnum option\<close>: \<open>None\<close> is \<open>undefined\<close>, the field is
  absent. Reading an absent field in arithmetic gives \<open>NaN\<close>, as in \<open>undefined / 1000\<close>.
\<close>

fun to_number :: "jsnum option \<Rightarrow> jsnum" where
  "to_number None = NaN"
| "to_number (Some x) = x"

text \<open>\<open>x || 0\<close> on a number or \<open>undefined\<close>: \<open>undefined\<close>, \<open>NaN\<close> and \<open>0\<close> are falsy.\<close>

fun or_zero :: "jsnum option \<Rightarrow> jsnum" where
  "or_zero None = Num 0"
| "or_zero (Some NaN) = Num 0"
| "or_zero (Some (Infinity s)) = Infinity s"
| "or_zero (Some (Num a)) = Num a"

datatype jsval =
    JUndefined
  | JNull
  | JBool bool
  | JNum jsnum
  | JStr string
  | JArr "jsval list"
  | JObj "(string \<times> jsval) list"

datatype js_error = TypeError string | SyntaxError string | Error string

fun error_message :: "js_error \<Rightarrow> string" where
  "error_message (TypeError m) = m"
| "error_message (SyntaxError m) = m"
| "error_message (Error m) = m"

text \<open>The backslash and the single quote, which a string literal cannot hold.\<close>

definition bsl :: string where
  "bsl = [CHR 0x5C]"

definition quo :: string where
  "quo = [CHR 0x27]"

text \<open>JavaScript truthiness, as used by \<open>!x\<close>, \<open>x && y\<close> and \<open>x || y\<close>.\<close>

fun truthy :: "jsval \<Rightarrow> bool" where
  "truthy JUndefined = False"
| "truthy JNull = False"
| "truthy (JBool b) = b"
| "truthy (JNum NaN) = False"
| "truthy (JNum (Infinity s)) = True"
| "truthy (JNum (Num a)) = (a \<noteq> 0)"
| "truthy (JStr s) = (s \<noteq> [])"
| "truthy (JArr _) = True"
| "truthy (JObj _) = True"

text \<open>
  Property read \<open>v.k\<close> for the field names the sources read (\<open>command\<close>, \<open>file_path\<close>,
  \<open>url\<close>): a \<open>TypeError\<close> on \<open>undefined\<close> and \<open>null\<close>, the stored value or \<open>undefined\<close>
  on an object, \<open>undefined\<close> on every other value.
\<close>

fun get_prop :: "jsval \<Rightarrow> string \<Rightarrow> js_error + jsval" where
  "get_prop JUndefined k =
     Inl (TypeError (''Cannot read properties of undefined (reading '' @ quo @ k @ quo @ '')''))"
| "get_prop JNull k =
     Inl (TypeError (''Cannot read properties of null (reading '' @ quo @ k @ quo @ '')''))"
| "get_prop (JObj kvs) k = Inr (case map_of kvs k of None \<Rightarrow> JUndefined | Some v \<Rightarrow> v)"
| "get_prop _ k = Inr JUndefined"

text \<open>
  What the sources take from the JavaScript runtime and this development does not define:
  \<open>new RegExp(source).test(text)\<close> (it throws a \<open>SyntaxError\<close> on a malformed source),
  \<open>JSON.stringify\<close> (\<open>None\<close> is its result \<open>undefined\<close>) and the string conversion of a
  value that is not a string. Every theorem below holds for each such runtime.
\<close>

record platform =
  re_test :: "string \<Rightarrow> string \<Rightarrow> js_error + bool"
  json_stringify :: "jsval \<Rightarrow> string option"
  to_string :: "jsval \<Rightarrow> string"

fun js_to_string :: "platform \<Rightarrow> jsval \<Rightarrow> string" where
  "js_to_string P (JStr s) = s"
| "js_to_string P v = to_string P v"

text \<open>\<open>s.replace(/c/g, t)\<close> for a single character \<open>c\<close>.\<close>

definition replace_all :: "char \<Rightarrow> string \<Rightarrow> string \<Rightarrow> string" where
  "replace_all c t s = concat (map (\<lambda>x. if x = c then t else [x]) s)"

section \<open>PermissionManager.ts\<close>

datatype behavior = Allow | Deny

datatype priority = Low | Medium | High | Critical

record PermissionContext =
  toolName :: string
  input :: jsval
  memberId :: "string option"
  sessionId :: "string option"
  priority :: "priority option"

record PermissionResult =
  behavior :: behavior
  updatedInput :: "jsval option"
  message :: "string option"
  interrupt :: "bool option"

record PermissionRules =
  allow :: "string list"
  deny :: "string list"
  ask :: "string list"

record audit_entry =
  entry_context :: PermissionContext
  entry_result :: PermissionResult
  entry_reason :: string

text \<open>
  \<open>rule.match(/^([^(]+)(?:\(([^)]*)\))?$/)\<close>: a non-empty tool name without \<open>(\<close>, then
  either the end of the rule or a parenthesised pattern without \<open>)\<close> that ends the rule.
  The second component is \<open>None\<close> when the optional group did not take part.
\<close>

definition parseRule :: "string \<Rightarrow> (string \<times> string option) option" where
  "parseRule rule =
     (let ruleToolName = takeWhile (\<lambda>c. c \<noteq> CHR ''('') rule;
          rest = dropWhile (\<lambda>c. c \<noteq> CHR ''('') rule
      in if ruleToolName = [] then None
         else if rest = [] then Some (ruleToolName, None)
         else (let body = tl rest
               in if body \<noteq> [] \<and> last body = CHR '')'' \<and> CHR '')'' \<notin> set (butlast body)
                  then Some (ruleToolName, Some (butlast body))
                  else None))"

text \<open>
  The sources of the six regular expression literals:
  \<^verbatim>\<open>/^rm\s+-rf\s+\//\<close>, \<^verbatim>\<open>/curl.*\|\s*sh/\<close>, \<^verbatim>\<open>/wget.*\|\s*sh/\<close>,
  \<^verbatim>\<open>/sudo\s+rm/\<close>, \<^verbatim>\<open>/dd\s+if=/\<close> and \<^verbatim>\<open>/:\(\)\{ :\|:& \};:/\<close>.
\<close>

definition dangerousPatterns :: "string list" where
  "dangerousPatterns =
     [''^rm'' @ bsl @ ''s+-rf'' @ bsl @ ''s+'' @ bsl @ ''/'',
      ''curl.*'' @ bsl @ ''|'' @ bsl @ ''s*sh'',
      ''wget.*'' @ bsl @ ''|'' @ bsl @ ''s*sh'',
      ''sudo'' @ bsl @ ''s+rm'',
      ''dd'' @ bsl @ ''s+if='',
      '':'' @ bsl @ ''('' @ bsl @ '')'' @ bsl @ ''{ :'' @ bsl @ ''|:& '' @ bsl @ ''};:'']"

text \<open>\<open>patterns.some(p => p.test(text))\<close>: the first pattern that matches ends the search.\<close>

fun some_test :: "platform \<Rightarrow> string list \<Rightarrow> string \<Rightarrow> js_error + bool" where
  "some_test P [] text = Inr False"
| "some_test P (p # ps) text =
     (case re_test P p text of
        Inl e \<Rightarrow> Inl e
      | Inr True \<Rightarrow> Inr True
      | Inr False \<Rightarrow> some_test P ps text)"

definition matchesBashRule :: "platform \<Rightarrow> string \<Rightarrow> jsval \<Rightarrow> js_error + bool" where
  "matchesBashRule P pattern command =
     (if \<not> truthy command then Inr False
      else if suffix '':*'' pattern then
        (case command of
           JStr c \<Rightarrow> Inr (prefix (take (length pattern - 2) pattern) c)
         | _ \<Rightarrow> Inl (TypeError ''command.startsWith is not a function''))
      else if JStr pattern = command then Inr True
      else if pattern = ''dangerous'' then some_test P dangerousPatterns (js_to_string P command)
      else Inr False)"

definition globToRegex :: "string \<Rightarrow> string" where
  "globToRegex pattern =
     ''^'' @ replace_all (CHR ''?'') ''.''
              (replace_all (CHR ''*'') ''.*''
                (replace_all (CHR ''.'') (bsl @ ''.'') pattern)) @ ''$''"

definition matchesFileRule :: "platform \<Rightarrow> string \<Rightarrow> jsval \<Rightarrow> js_error + bool" where
  "matchesFileRule P pattern filePath =
     (if \<not> truthy filePath then Inr False
      else re_test P (globToRegex pattern) (js_to_string P filePath))"

text \<open>
  \<open>v.includes(pattern)\<close> on a truthy value: substring search on a string, membership on
  an array, and a \<open>TypeError\<close> on a value without an \<open>includes\<close> method.
\<close>

fun js_includes :: "string \<Rightarrow> jsval \<Rightarrow> string \<Rightarrow> js_error + bool" where
  "js_includes what (JStr s) pattern = Inr (sublist pattern s)"
| "js_includes what (JArr vs) pattern = Inr (JStr pattern \<in> set vs)"
| "js_includes what v pattern = Inl (TypeError (what @ ''.includes is not a function''))"

definition matchesUrlRule :: "platform \<Rightarrow> string \<Rightarrow> jsval \<Rightarrow> js_error + bool" where
  "matchesUrlRule P pattern url =
     (if \<not> truthy url then Inr False
      else if CHR ''*'' \<in> set pattern
        then re_test P (replace_all (CHR ''*'') ''.*'' pattern) (js_to_string P url)
      else js_includes ''url'' url pattern)"

text \<open>The text is \<open>JSON.stringify(input)\<close>, which is \<open>undefined\<close> for an \<open>undefined\<close> input.\<close>

definition matchesGenericPattern :: "platform \<Rightarrow> string \<Rightarrow> string option \<Rightarrow> js_error + bool" where
  "matchesGenericPattern P pattern text =
     (if CHR ''*'' \<in> set pattern
        then re_test P (replace_all (CHR ''*'') ''.*'' pattern)
               (case text of None \<Rightarrow> ''undefined'' | Some s \<Rightarrow> s)
      else (case text of
              None \<Rightarrow> Inl (TypeError
                (''Cannot read properties of undefined (reading '' @ quo @ ''includes'' @ quo @ '')''))
            | Some s \<Rightarrow> Inr (sublist pattern s)))"

definition matchesRule :: "platform \<Rightarrow> string \<Rightarrow> string \<Rightarrow> jsval \<Rightarrow> js_error + bool" where
  "matchesRule P rule tool inp =
     (case parseRule rule of
        None \<Rightarrow> Inr False
      | Some (ruleToolName, rulePattern) \<Rightarrow>
          if ruleToolName \<noteq> tool \<and> ruleToolName \<noteq> ''*'' then Inr False
          else if rulePattern = None \<or> rulePattern = Some [] then Inr True
          else if tool = ''Bash'' then
            (case get_prop inp ''command'' of
               Inl e \<Rightarrow> Inl e
             | Inr command \<Rightarrow> matchesBashRule P (the rulePattern) command)
          else if tool = ''Read'' \<or> tool = ''Write'' \<or> tool = ''Edit'' then
            (case get_prop inp ''file_path'' of
               Inl e \<Rightarrow> Inl e
             | Inr filePath \<Rightarrow> matchesFileRule P (the rulePattern) filePath)
          else if tool = ''WebFetch'' then
            (case get_prop inp ''url'' of
               Inl e \<Rightarrow> Inl e
             | Inr url \<Rightarrow> matchesUrlRule P (the rulePattern) url)
          else matchesGenericPattern P (the rulePattern) (json_stringify P inp))"

text \<open>
  The loop shared by \<open>checkDenyRules\<close>, \<open>checkAllowRules\<close> and \<open>checkAskRules\<close>: the first
  rule that matches is returned; an exception raised while a rule is matched leaves the loop.
\<close>

fun firstMatch :: "platform \<Rightarrow> string list \<Rightarrow> string \<Rightarrow> jsval \<Rightarrow> js_error + string option" where
  "firstMatch P [] tool inp = Inr None"
| "firstMatch P (rule # rules) tool inp =
     (case matchesRule P rule tool inp of
        Inl e \<Rightarrow> Inl e
      | Inr True \<Rightarrow> Inr (Some rule)
      | Inr False \<Rightarrow> firstMatch P rules tool inp)"

definition criticalPatterns :: "string list" where
  "criticalPatterns = [''Bash(rm -rf'', ''Bash(dangerous)'', ''Write(.env)'', ''Write(./secrets/'']"

definition isCriticalRule :: "string \<Rightarrow> bool" where
  "isCriticalRule rule = list_ex (\<lambda>pattern. sublist pattern rule) criticalPatterns"

definition checkDenyRules ::
  "platform \<Rightarrow> PermissionRules \<Rightarrow> string \<Rightarrow> jsval \<Rightarrow> js_error + (string \<times> bool) option" where
  "checkDenyRules P rules tool inp =
     (case firstMatch P (deny rules) tool inp of
        Inl e \<Rightarrow> Inl e
      | Inr None \<Rightarrow> Inr None
      | Inr (Some rule) \<Rightarrow> Inr (Some (rule, isCriticalRule rule)))"

definition checkAllowRules ::
  "platform \<Rightarrow> PermissionRules \<Rightarrow> string \<Rightarrow> jsval \<Rightarrow> js_error + string option" where
  "checkAllowRules P rules tool inp = firstMatch P (allow rules) tool inp"

definition checkAskRules ::
  "platform \<Rightarrow> PermissionRules \<Rightarrow> string \<Rightarrow> jsval \<Rightarrow> js_error + string option" where
  "checkAskRules P rules tool inp = firstMatch P (ask rules) tool inp"

definition safeDevelopmentTools :: "string list" where
  "safeDevelopmentTools =
     [''Read'', ''Grep'', ''Glob'', ''TodoWrite'', ''ListMcpResources'', ''ReadMcpResource'']"

definition editingTools :: "string list" where
  "editingTools = [''Write'', ''Edit'', ''MultiEdit'']"

definition safeCommands :: "string list" where
  "safeCommands = [''ls'', ''pwd'', ''echo'', ''cat'', ''head'', ''tail'', ''grep'', ''find'']"

text \<open>
  \<open>input.command?.split(' ')[0]\<close> once \<open>input.command\<close> has been read: \<open>undefined\<close> for a
  missing or \<open>null\<close> command, the text before the first space for a string, and a
  \<open>TypeError\<close> for any other value, which has no \<open>split\<close> method.
\<close>

fun first_word :: "jsval \<Rightarrow> js_error + jsval" where
  "first_word JUndefined = Inr JUndefined"
| "first_word JNull = Inr JUndefined"
| "first_word (JStr s) = Inr (JStr (takeWhile (\<lambda>c. c \<noteq> CHR '' '') s))"
| "first_word v = Inl (TypeError ''input.command?.split is not a function'')"

definition allow_plain :: PermissionResult where
  "allow_plain = \<lparr>behavior = Allow, updatedInput = None, message = None, interrupt = None\<rparr>"

definition deny_with :: "string \<Rightarrow> PermissionResult" where
  "deny_with m = \<lparr>behavior = Deny, updatedInput = None, message = Some m, interrupt = None\<rparr>"

definition applyDefaultPolicy :: "PermissionContext \<Rightarrow> js_error + PermissionResult" where
  "applyDefaultPolicy context =
     (if toolName context \<in> set safeDevelopmentTools then Inr allow_plain
      else if toolName context \<in> set editingTools then
        (case get_prop (input context) ''file_path'' of
           Inl e \<Rightarrow> Inl e
         | Inr fp \<Rightarrow>
             if \<not> truthy fp
               then Inr (deny_with ''File editing outside workspace requires explicit permission'')
             else (case js_includes ''input.file_path'' fp ''/workspace/'' of
                     Inl e \<Rightarrow> Inl e
                   | Inr True \<Rightarrow> Inr allow_plain
                   | Inr False \<Rightarrow>
                       Inr (deny_with ''File editing outside workspace requires explicit permission'')))
      else if toolName context = ''Bash'' then
        (case get_prop (input context) ''command'' of
           Inl e \<Rightarrow> Inl e
         | Inr c \<Rightarrow>
             (case first_word c of
                Inl e \<Rightarrow> Inl e
              | Inr command \<Rightarrow>
                  if command \<in> set (map JStr safeCommands) then Inr allow_plain
                  else if priority context = Some Critical \<or> priority context = Some High
                    then Inr (allow_plain\<lparr>message := Some ''Bash command approved due to high priority''\<rparr>)
                  else Inr (deny_with ''Bash command requires explicit permission'')))
      else Inr (deny_with (''Tool '' @ toolName context @ '' not in allowed list'')))"

text \<open>
  \<open>logDecision\<close> appends to the audit log and keeps the last 500 entries once the log has
  more than 1000. The timestamp of an entry and the console logger are left out.
\<close>

definition logDecision ::
  "audit_entry list \<Rightarrow> PermissionContext \<Rightarrow> PermissionResult \<Rightarrow> string \<Rightarrow> audit_entry list" where
  "logDecision auditLog context res reason =
     (let auditLog' = auditLog @ [\<lparr>entry_context = context, entry_result = res, entry_reason = reason\<rparr>]
      in if length auditLog' > 1000 then drop (length auditLog' - 500) auditLog' else auditLog')"

text \<open>
  The body of the \<open>try\<close> block of \<open>evaluatePermission\<close>: the decision and the reason that
  is logged with it, or the exception that leaves the block.
\<close>

definition evaluate_try ::
  "platform \<Rightarrow> PermissionRules \<Rightarrow> PermissionContext \<Rightarrow> js_error + (PermissionResult \<times> string)" where
  "evaluate_try P rules context =
     (case checkDenyRules P rules (toolName context) (input context) of
        Inl e \<Rightarrow> Inl e
      | Inr (Some (rule, critical)) \<Rightarrow>
          Inr (\<lparr>behavior = Deny, updatedInput = None,
                message = Some (''Tool use denied by rule: '' @ rule),
                interrupt = Some critical\<rparr>,
               ''Denied by rule: '' @ rule)
      | Inr None \<Rightarrow>
          (case checkAllowRules P rules (toolName context) (input context) of
             Inl e \<Rightarrow> Inl e
           | Inr (Some rule) \<Rightarrow>
               Inr (\<lparr>behavior = Allow, updatedInput = Some (input context),
                     message = None, interrupt = None\<rparr>,
                    ''Allowed by rule: '' @ rule)
           | Inr None \<Rightarrow>
               (case checkAskRules P rules (toolName context) (input context) of
                  Inl e \<Rightarrow> Inl e
                | Inr (Some rule) \<Rightarrow>
                    Inr (\<lparr>behavior = Allow, updatedInput = None,
                          message = Some (''Tool approved (would normally ask): '' @ rule),
                          interrupt = None\<rparr>,
                         ''Auto-approved ask rule: '' @ rule)
                | Inr None \<Rightarrow>
                    (case applyDefaultPolicy context of
                       Inl e \<Rightarrow> Inl e
                     | Inr defaultResult \<Rightarrow> Inr (defaultResult, ''Applied default policy'')))))"

text \<open>
  \<open>evaluatePermission\<close>: the \<open>try\<close> block, and the \<open>catch\<close> handler that turns an exception
  into a denial. The result is the decision and the audit log after the call.
\<close>

definition evaluatePermission ::
  "platform \<Rightarrow> PermissionRules \<Rightarrow> PermissionContext \<Rightarrow> audit_entry list
     \<Rightarrow> PermissionResult \<times> audit_entry list" where
  "evaluatePermission P rules context auditLog =
     (case evaluate_try P rules context of
        Inr (res, reason) \<Rightarrow> (res, logDecision auditLog context res reason)
      | Inl error \<Rightarrow>
          (let res = deny_with (''Permission evaluation error: '' @ error_message error)
           in (res, logDecision auditLog context res (''Error: '' @ error_message error))))"

section \<open>CostTracker.ts\<close>

text \<open>
  \<open>UsageData\<close>: each counter is a number or absent. \<open>js_usage\<close> is a usage value of type
  \<open>any\<close>, as a message of the engine carries it: \<open>undefined\<close>, \<open>null\<close> or an object.
\<close>

record UsageData =
  input_tokens :: "jsnum option"
  output_tokens :: "jsnum option"
  cache_creation_input_tokens :: "jsnum option"
  cache_read_input_tokens :: "jsnum option"
  total_cost_usd :: "jsnum option"

datatype js_usage = UsageUndefined | UsageNull | UsageObject UsageData

record StepUsage =
  messageId :: string
  timestamp :: string
  step_usage :: UsageData
  costUSD :: jsnum

record CostTracker =
  processedMessageIds :: "string set"
  stepUsages :: "StepUsage list"

record tracker_message =
  msg_type :: string
  msg_id :: string
  msg_usage :: js_usage

text \<open>The prices: the literals 0.00003, 0.00015, 0.000375 and 0.0000075.\<close>

definition input_tokens_per_1k :: "rounding \<Rightarrow> jsnum" where
  "input_tokens_per_1k R = of_rounded (R (3 / 100000))"

definition output_tokens_per_1k :: "rounding \<Rightarrow> jsnum" where
  "output_tokens_per_1k R = of_rounded (R (15 / 100000))"

definition cache_creation_per_1k :: "rounding \<Rightarrow> jsnum" where
  "cache_creation_per_1k R = of_rounded (R (375 / 1000000))"

definition cache_read_per_1k :: "rounding \<Rightarrow> jsnum" where
  "cache_read_per_1k R = of_rounded (R (75 / 10000000))"

definition calculateCost :: "rounding \<Rightarrow> UsageData \<Rightarrow> jsnum" where
  "calculateCost R u =
     (let inputCost = js_mul R (per_thousand R (to_number (input_tokens u))) (input_tokens_per_1k R);
          outputCost = js_mul R (per_thousand R (to_number (output_tokens u))) (output_tokens_per_1k R);
          cacheCreationCost =
            js_mul R (per_thousand R (or_zero (cache_creation_input_tokens u))) (cache_creation_per_1k R);
          cacheReadCost =
            js_mul R (per_thousand R (or_zero (cache_read_input_tokens u))) (cache_read_per_1k R)
      in js_add R (js_add R (js_add R inputCost outputCost) cacheCreationCost) cacheReadCost)"

definition aggregateUsage :: "rounding \<Rightarrow> UsageData \<Rightarrow> UsageData \<Rightarrow> UsageData" where
  "aggregateUsage R current newUsage =
     (let i = js_add R (or_zero (input_tokens current)) (or_zero (input_tokens newUsage));
          out = js_add R (or_zero (output_tokens current)) (or_zero (output_tokens newUsage));
          cc = js_add R (or_zero (cache_creation_input_tokens current))
                 (or_zero (cache_creation_input_tokens newUsage));
          cr = js_add R (or_zero (cache_read_input_tokens current))
                 (or_zero (cache_read_input_tokens newUsage))
      in \<lparr>input_tokens = Some i, output_tokens = Some out,
          cache_creation_input_tokens = Some cc, cache_read_input_tokens = Some cr,
          total_cost_usd =
            Some (calculateCost R \<lparr>input_tokens = Some i, output_tokens = Some out,
                    cache_creation_input_tokens = Some cc, cache_read_input_tokens = Some cr,
                    total_cost_usd = None\<rparr>)\<rparr>)"

text \<open>
  \<open>processMessage\<close>: the step that was recorded (\<open>None\<close> is \<open>null\<close>) and the tracker after
  the call. The timestamp is the clock's reading, passed in.
\<close>

definition processMessage ::
  "rounding \<Rightarrow> CostTracker \<Rightarrow> tracker_message \<Rightarrow> string \<Rightarrow> StepUsage option \<times> CostTracker" where
  "processMessage R tracker msg now =
     (case msg_usage msg of
        UsageObject u \<Rightarrow>
          if msg_type msg \<noteq> ''assistant'' then (None, tracker)
          else if msg_id msg \<in> processedMessageIds tracker then (None, tracker)
          else
            (let stepUsage = \<lparr>messageId = msg_id msg, timestamp = now, step_usage = u,
                               costUSD = calculateCost R u\<rparr>
             in (Some stepUsage,
                 \<lparr>processedMessageIds = insert (msg_id msg) (processedMessageIds tracker),
                  stepUsages = stepUsages tracker @ [stepUsage]\<rparr>))
      | _ \<Rightarrow> (None, tracker))"

definition getTotalCost :: "rounding \<Rightarrow> CostTracker \<Rightarrow> jsnum" where
  "getTotalCost R tracker = foldl (\<lambda>total step. js_add R total (costUSD step)) (Num 0) (stepUsages tracker)"

definition zero_usage :: UsageData where
  "zero_usage = \<lparr>input_tokens = Some (Num 0), output_tokens = Some (Num 0),
     cache_creation_input_tokens = Some (Num 0), cache_read_input_tokens = Some (Num 0),
     total_cost_usd = Some (Num 0)\<rparr>"

definition getTotalUsage :: "rounding \<Rightarrow> CostTracker \<Rightarrow> UsageData" where
  "getTotalUsage R tracker =
     foldl (\<lambda>total step. aggregateUsage R total (step_usage step)) zero_usage (stepUsages tracker)"

section \<open>TeamManager.ts\<close>

datatype task_type = Analysis | Implementation | Review | Testing | Deployment | Debugging

fun task_type_name :: "task_type \<Rightarrow> string" where
  "task_type_name Analysis = ''analysis''"
| "task_type_name Implementation = ''implementation''"
| "task_type_name Review = ''review''"
| "task_type_name Testing = ''testing''"
| "task_type_name Deployment = ''deployment''"
| "task_type_name Debugging = ''debugging''"

fun priority_name :: "priority \<Rightarrow> string" where
  "priority_name Low = ''low''"
| "priority_name Medium = ''medium''"
| "priority_name High = ''high''"
| "priority_name Critical = ''critical''"

record TeamMember =
  member_id :: string
  member_name :: string
  role :: string
  specialization :: "string list"
  permissions :: "string list"
  systemPrompt :: string

text \<open>Of the configuration, the fields that the functions below read.\<close>

record TeamConfiguration =
  config_workspace :: string
  members :: "TeamMember list"

record TaskRequest =
  task_kind :: task_type
  description :: string
  assignedTo :: "string option"
  task_priority :: priority
  files :: "string list option"
  dependencies :: "string list option"

datatype task_status = Completed | Failed | InProgress

record TaskResult =
  taskId :: string
  status :: task_status
  result :: "string option"
  usage :: js_usage
  cost :: "jsnum option"
  duration :: "nat option"

record TeamSession =
  session_id :: string
  session_name :: string
  startTime :: nat
  workspace :: string
  activeMembers :: "string list"
  currentTasks :: "TaskRequest list"
  completedTasks :: "TaskResult list"
  totalCost :: jsnum
  totalUsage :: UsageData

record TeamManager =
  activeSessions :: "string \<rightharpoonup> TeamSession"

text \<open>
  The execution engine (\<open>query\<close> of the SDK) is outside the repository. One run of it is
  the finite sequence of messages it yields and, after them, the exception it throws, if
  any. \<open>OtherMessage\<close> stands for every message that is not a result of subtype
  \<open>success\<close>. A run that never ends is not modelled.
\<close>

datatype sdk_message = ResultSuccess string js_usage | OtherMessage

record engine_run =
  yielded :: "sdk_message list"
  thrown :: "js_error option"

text \<open>
  What one call of \<open>executeTask\<close> takes from its environment: the random task identifier,
  the engine (a run for each prompt and member) and the measured duration.
\<close>

record task_env =
  env_taskId :: string
  env_query :: "string \<Rightarrow> TeamMember \<Rightarrow> engine_run"
  env_duration :: nat

definition empty_usage :: UsageData where
  "empty_usage = \<lparr>input_tokens = None, output_tokens = None,
     cache_creation_input_tokens = None, cache_read_input_tokens = None,
     total_cost_usd = None\<rparr>"

text \<open>\<open>xs.join(', ')\<close>.\<close>

fun join_comma :: "string list \<Rightarrow> string" where
  "join_comma [] = []"
| "join_comma [x] = x"
| "join_comma (x # y # ys) = x @ '', '' @ join_comma (y # ys)"

text \<open>\<open>xs?.join(', ') || fallback\<close>: the fallback also replaces an empty joined string.\<close>

definition join_or :: "string list option \<Rightarrow> string \<Rightarrow> string" where
  "join_or xs fallback =
     (case xs of
        None \<Rightarrow> fallback
      | Some ys \<Rightarrow> if join_comma ys = [] then fallback else join_comma ys)"

definition generateTaskInput :: "TaskRequest \<Rightarrow> string" where
  "generateTaskInput task =
     description task @ [CHR 0x0A, CHR 0x0A]
     @ ''Files to focus on: '' @ join_or (files task) ''entire workspace'' @ [CHR 0x0A]
     @ ''Priority: '' @ priority_name (task_priority task) @ [CHR 0x0A]
     @ ''Dependencies: '' @ join_or (dependencies task) ''none''"

text \<open>
  The \<open>for await\<close> loop of \<open>executeTask\<close>: it stops at the first successful result and
  keeps its text and usage; without one, the text stays empty and the usage stays \<open>{}\<close>.
\<close>

fun consume :: "sdk_message list \<Rightarrow> js_error option \<Rightarrow> js_error + (string \<times> js_usage)" where
  "consume [] None = Inr ([], UsageObject empty_usage)"
| "consume [] (Some e) = Inl e"
| "consume (ResultSuccess r u # ms) t = Inr (r, u)"
| "consume (OtherMessage # ms) t = consume ms t"

text \<open>\<open>calculateCost(usage)\<close> on a usage of type \<open>any\<close>: reading a counter of \<open>undefined\<close> or \<open>null\<close> throws.\<close>

fun calculateCost_any :: "rounding \<Rightarrow> js_usage \<Rightarrow> js_error + jsnum" where
  "calculateCost_any R (UsageObject u) = Inr (calculateCost R u)"
| "calculateCost_any R UsageUndefined =
     Inl (TypeError (''Cannot read properties of undefined (reading '' @ quo @ ''input_tokens'' @ quo @ '')''))"
| "calculateCost_any R UsageNull =
     Inl (TypeError (''Cannot read properties of null (reading '' @ quo @ ''input_tokens'' @ quo @ '')''))"

text \<open>
  The part of the \<open>try\<close> block of \<open>executeTask\<close> that does not touch the session: run the
  engine on the task's prompt and build the \<open>TaskResult\<close>.
\<close>

definition buildTaskResult :: "rounding \<Rightarrow> TaskRequest \<Rightarrow> TeamMember \<Rightarrow> task_env \<Rightarrow> js_error + TaskResult" where
  "buildTaskResult R task member env =
     (let run = env_query env (generateTaskInput task) member
      in case consume (yielded run) (thrown run) of
           Inl e \<Rightarrow> Inl e
         | Inr (res, u) \<Rightarrow>
             (case calculateCost_any R u of
                Inl e \<Rightarrow> Inl e
              | Inr c \<Rightarrow>
                  Inr \<lparr>taskId = env_taskId env, status = Completed, result = Some res,
                       usage = u, cost = Some c, duration = Some (env_duration env)\<rparr>))"

text \<open>The value that the \<open>catch\<close> handler of \<open>executeTask\<close> returns.\<close>

definition failedResult :: "string \<Rightarrow> js_error \<Rightarrow> TaskResult" where
  "failedResult tid e =
     \<lparr>taskId = tid, status = Failed, result = Some (''Task failed: '' @ error_message e),
      usage = UsageUndefined, cost = None, duration = None\<rparr>"

text \<open>
  The three statements under \<open>// Update session\<close>. They run without a suspension point
  between them, so no other task's update can fall in between. The usage of the result is
  an object here: \<open>calculateCost\<close> has read its counters before the result was built.
\<close>

definition updateSession :: "rounding \<Rightarrow> TeamSession \<Rightarrow> TaskResult \<Rightarrow> TeamSession" where
  "updateSession R session taskResult =
     session\<lparr>completedTasks := completedTasks session @ [taskResult],
             totalCost := js_add R (totalCost session) (or_zero (cost taskResult)),
             totalUsage :=
               (case usage taskResult of
                  UsageObject u \<Rightarrow> aggregateUsage R (totalUsage session) u
                | _ \<Rightarrow> totalUsage session)\<rparr>"

definition executeTask ::
  "rounding \<Rightarrow> TeamManager \<Rightarrow> string \<Rightarrow> TaskRequest \<Rightarrow> TeamMember \<Rightarrow> task_env \<Rightarrow> TeamManager \<times> TaskResult" where
  "executeTask R tm sid task member env =
     (case buildTaskResult R task member env of
        Inl e \<Rightarrow> (tm, failedResult (env_taskId env) e)
      | Inr taskResult \<Rightarrow>
          (case activeSessions tm sid of
             None \<Rightarrow>
               (tm, failedResult (env_taskId env)
                      (TypeError (''Cannot read properties of undefined (reading ''
                         @ quo @ ''completedTasks'' @ quo @ '')'')))
           | Some session \<Rightarrow>
               (tm\<lparr>activeSessions := (activeSessions tm)(sid \<mapsto> updateSession R session taskResult)\<rparr>,
                taskResult)))"

text \<open>\<open>role.toLowerCase()\<close>, on the letters A to Z.\<close>

definition to_lower :: "char \<Rightarrow> char" where
  "to_lower c =
     (let n = (of_char c :: nat) in if 65 \<le> n \<and> n \<le> 90 then char_of (n + 32) else c)"

text \<open>
  \<open>selectTeamMember\<close>: \<open>None\<close> is the value \<open>undefined\<close>, which \<open>this.config.members[0]\<close>
  is when the roster is empty.
\<close>

definition selectTeamMember :: "TeamConfiguration \<Rightarrow> TaskRequest \<Rightarrow> TeamMember option" where
  "selectTeamMember cfg task =
     (let candidates =
            filter (\<lambda>member. task_type_name (task_kind task) \<in> set (specialization member)
                              \<or> sublist (task_type_name (task_kind task)) (map to_lower (role member)))
              (members cfg)
      in case candidates of
           [] \<Rightarrow>
             (case find (\<lambda>m. role m = ''full-stack-developer'') (members cfg) of
                Some m \<Rightarrow> Some m
              | None \<Rightarrow> (case members cfg of [] \<Rightarrow> None | m # _ \<Rightarrow> Some m))
         | c # _ \<Rightarrow> Some c)"

definition sessionNotFound :: "string \<Rightarrow> js_error" where
  "sessionNotFound sid = Error (''Session '' @ sid @ '' not found'')"

text \<open>Reading \<open>.id\<close> of the \<open>undefined\<close> member.\<close>

definition memberUndefined :: js_error where
  "memberUndefined =
     TypeError (''Cannot read properties of undefined (reading '' @ quo @ ''id'' @ quo @ '')'')"

text \<open>
  \<open>startTeamSession\<close>: the session identifier (\<open>generateSessionId\<close> builds it from the
  clock and a random number) and the start time come from the environment.
\<close>

definition startTeamSession ::
  "TeamConfiguration \<Rightarrow> TeamManager \<Rightarrow> string \<Rightarrow> string \<Rightarrow> nat \<Rightarrow> TeamManager \<times> string" where
  "startTeamSession cfg tm sessionName sid now =
     (tm\<lparr>activeSessions := (activeSessions tm)(sid \<mapsto>
           \<lparr>session_id = sid, session_name = sessionName, startTime = now,
            workspace = config_workspace cfg, activeMembers = [], currentTasks = [],
            completedTasks = [], totalCost = Num 0, totalUsage = empty_usage\<rparr>)\<rparr>,
      sid)"

definition assignTask ::
  "rounding \<Rightarrow> TeamConfiguration \<Rightarrow> TeamManager \<Rightarrow> string \<Rightarrow> TaskRequest \<Rightarrow> task_env
     \<Rightarrow> js_error + (TeamManager \<times> string)" where
  "assignTask R cfg tm sid task env =
     (case activeSessions tm sid of
        None \<Rightarrow> Inl (sessionNotFound sid)
      | Some session \<Rightarrow>
          (case selectTeamMember cfg task of
             None \<Rightarrow> Inl memberUndefined
           | Some assignedMember \<Rightarrow>
               (let task' = task\<lparr>assignedTo := Some (member_id assignedMember)\<rparr>;
                    session' = session\<lparr>currentTasks := currentTasks session @ [task'],
                                       activeMembers := activeMembers session @ [member_id assignedMember]\<rparr>;
                    tm' = tm\<lparr>activeSessions := (activeSessions tm)(sid \<mapsto> session')\<rparr>;
                    (tm'', res) = executeTask R tm' sid task' assignedMember env
                in Inr (tm'', taskId res))))"

text \<open>
  \<open>executeParallelTasks\<close>. Every task gets its member and starts; \<open>Promise.all\<close> rejects
  when a callback throws, which only reading \<open>.id\<close> of an \<open>undefined\<close> member does, before
  any task has run (\<open>assignMembers\<close>). The tasks then finish in an order the scheduler
  decides: \<open>finished\<close> lists the indices of the tasks in the order in which they reach the
  end of \<open>executeTask\<close>, and the session is updated in that order. The results are
  returned in the order of the tasks. \<open>envs i\<close> is the environment of the task at index \<open>i\<close>.
\<close>

fun assignMembers :: "TeamConfiguration \<Rightarrow> TaskRequest list \<Rightarrow> (TaskRequest \<times> TeamMember) list option" where
  "assignMembers cfg [] = Some []"
| "assignMembers cfg (task # tasks) =
     (case selectTeamMember cfg task of
        None \<Rightarrow> None
      | Some member \<Rightarrow>
          (case assignMembers cfg tasks of
             None \<Rightarrow> None
           | Some jobs \<Rightarrow> Some ((task\<lparr>assignedTo := Some (member_id member)\<rparr>, member) # jobs)))"

definition runJob ::
  "rounding \<Rightarrow> string \<Rightarrow> (TaskRequest \<times> TeamMember) list \<Rightarrow> (nat \<Rightarrow> task_env) \<Rightarrow> TeamManager \<Rightarrow> nat
     \<Rightarrow> TeamManager \<times> TaskResult" where
  "runJob R sid jobs envs tm i = executeTask R tm sid (fst (jobs ! i)) (snd (jobs ! i)) (envs i)"

definition executeParallelTasks ::
  "rounding \<Rightarrow> TeamConfiguration \<Rightarrow> TeamManager \<Rightarrow> string \<Rightarrow> TaskRequest list \<Rightarrow> (nat \<Rightarrow> task_env) \<Rightarrow> nat list
     \<Rightarrow> js_error + (TeamManager \<times> TaskResult list)" where
  "executeParallelTasks R cfg tm sid tasks envs finished =
     (case activeSessions tm sid of
        None \<Rightarrow> Inl (sessionNotFound sid)
      | Some session \<Rightarrow>
          (case assignMembers cfg tasks of
             None \<Rightarrow> Inl memberUndefined
           | Some jobs \<Rightarrow>
               Inr (foldl (\<lambda>tm' i. if i < length jobs then fst (runJob R sid jobs envs tm' i) else tm')
                      tm finished,
                    map (\<lambda>i. snd (runJob R sid jobs envs tm i)) [0..<length jobs])))"

definition getSessionStatus :: "TeamManager \<Rightarrow> string \<Rightarrow> TeamSession option" where
  "getSessionStatus tm sid = activeSessions tm sid"

record task_summary =
  summary_taskId :: string
  summary_status :: task_status
  summary_duration :: "nat option"
  summary_cost :: "jsnum option"

record session_report =
  report_sessionId :: string
  report_name :: string
  report_duration :: int
  report_totalTasks :: nat
  report_totalCost :: jsnum
  report_usage :: UsageData
  report_taskBreakdown :: "task_summary list"

definition generateSessionReport :: "TeamSession \<Rightarrow> nat \<Rightarrow> session_report" where
  "generateSessionReport session now =
     \<lparr>report_sessionId = session_id session,
      report_name = session_name session,
      report_duration = int now - int (startTime session),
      report_totalTasks = length (completedTasks session),
      report_totalCost = totalCost session,
      report_usage = totalUsage session,
      report_taskBreakdown =
        map (\<lambda>task. \<lparr>summary_taskId = taskId task, summary_status = status task,
                       summary_duration = duration task, summary_cost = cost task\<rparr>)
          (completedTasks session)\<rparr>"

text \<open>
  \<open>endSession\<close>: \<open>written\<close> is what writing the report file does, \<open>None\<close> when it succeeds
  and the exception otherwise. The session is deleted after the report has been written.
\<close>

definition endSession ::
  "TeamManager \<Rightarrow> string \<Rightarrow> nat \<Rightarrow> js_error option \<Rightarrow> js_error + (TeamManager \<times> session_report)" where
  "endSession tm sid now written =
     (case activeSessions tm sid of
        None \<Rightarrow> Inl (sessionNotFound sid)
      | Some session \<Rightarrow>
          (case written of
             Some e \<Rightarrow> Inl e
           | None \<Rightarrow>
               Inr (tm\<lparr>activeSessions := (activeSessions tm)(sid := None)\<rparr>,
                    generateSessionReport session now)))"

text \<open>
  The states of the orchestrator that sequences of its operations produce, from the empty
  session table. An operation that throws leaves the table as it was.
\<close>

inductive reachable :: "rounding \<Rightarrow> TeamConfiguration \<Rightarrow> TeamManager \<Rightarrow> bool" for R cfg where
  reach_init: "reachable R cfg \<lparr>activeSessions = Map.empty\<rparr>"
| reach_start: "reachable R cfg tm \<Longrightarrow> reachable R cfg (fst (startTeamSession cfg tm sessionName sid now))"
| reach_assign: "reachable R cfg tm \<Longrightarrow> assignTask R cfg tm sid task env = Inr (tm', tid) \<Longrightarrow> reachable R cfg tm'"
| reach_parallel:
    "reachable R cfg tm \<Longrightarrow> distinct finished \<Longrightarrow> set finished = {..<length tasks}
       \<Longrightarrow> executeParallelTasks R cfg tm sid tasks envs finished = Inr (tm', results)
       \<Longrightarrow> reachable R cfg tm'"
| reach_end: "reachable R cfg tm \<Longrightarrow> endSession tm sid now written = Inr (tm', report) \<Longrightarrow> reachable R cfg tm'"

text \<open>
  The two sides of the session invariant. \<open>sum_of_costs\<close> adds the \<open>cost\<close> fields of the
  completed tasks, a missing one as zero; \<open>sum_of_counted_costs\<close> adds \<open>cost || 0\<close>, as
  \<open>executeTask\<close> does. \<open>fold_of_usages\<close> folds \<open>aggregateUsage\<close> over their usages.
\<close>

definition sum_of_costs :: "rounding \<Rightarrow> TaskResult list \<Rightarrow> jsnum" where
  "sum_of_costs R ts =
     foldl (\<lambda>total t. js_add R total (case cost t of None \<Rightarrow> Num 0 | Some c \<Rightarrow> c)) (Num 0) ts"

definition sum_of_counted_costs :: "rounding \<Rightarrow> TaskResult list \<Rightarrow> jsnum" where
  "sum_of_counted_costs R ts = foldl (\<lambda>total t. js_add R total (or_zero (cost t))) (Num 0) ts"

definition fold_of_usages :: "rounding \<Rightarrow> TaskResult list \<Rightarrow> UsageData" where
  "fold_of_usages R ts =
     foldl (\<lambda>total t. case usage t of UsageObject u \<Rightarrow> aggregateUsage R total u | _ \<Rightarrow> total)
       empty_usage ts"

text \<open>
  A session is consistent when its running totals are the folds over its completed tasks.
\<close>

definition session_consistent :: "rounding \<Rightarrow> TeamSession \<Rightarrow> bool" where
  "session_consistent R s \<longleftrightarrow>
     totalCost s = sum_of_counted_costs R (completedTasks s)
     \<and> totalUsage s = fold_of_usages R (completedTasks s)"

definition consistent :: "rounding \<Rightarrow> TeamManager \<Rightarrow> bool" where
  "consistent R tm \<longleftrightarrow> (\<forall>sid s. activeSessions tm sid = Some s \<longrightarrow> session_consistent R s)"

text \<open>
  The \<open>TaskResult\<close> of one task, as \<open>executeTask\<close> returns it for a session that exists:
  the completed result, or the failed one that the \<open>catch\<close> handler builds. It depends
  on the task, its member and its own engine run only.
\<close>

definition outcome :: "rounding \<Rightarrow> TaskRequest \<Rightarrow> TeamMember \<Rightarrow> task_env \<Rightarrow> TaskResult" where
  "outcome R task member env =
     (case buildTaskResult R task member env of
        Inl e \<Rightarrow> failedResult (env_taskId env) e
      | Inr taskResult \<Rightarrow> taskResult)"

text \<open>
  \<open>later cfg s tm tm2\<close>: the state \<open>tm2\<close> comes from \<open>tm\<close> by operations of the
  orchestrator, none of which starts a session under the identifier \<open>s\<close>.
\<close>

inductive later ::
  "rounding \<Rightarrow> TeamConfiguration \<Rightarrow> string \<Rightarrow> TeamManager \<Rightarrow> TeamManager \<Rightarrow> bool"
  for R cfg s tm where
  later_now: "later R cfg s tm tm"
| later_start: "later R cfg s tm tm1 \<Longrightarrow> sid \<noteq> s
     \<Longrightarrow> later R cfg s tm (fst (startTeamSession cfg tm1 sessionName sid now))"
| later_assign: "later R cfg s tm tm1 \<Longrightarrow> assignTask R cfg tm1 sid task env = Inr (tm2, tid)
     \<Longrightarrow> later R cfg s tm tm2"
| later_parallel: "later R cfg s tm tm1
     \<Longrightarrow> executeParallelTasks R cfg tm1 sid tasks envs finished = Inr (tm2, results)
     \<Longrightarrow> later R cfg s tm tm2"
| later_end: "later R cfg s tm tm1 \<Longrightarrow> endSession tm1 sid now written = Inr (tm2, report)
     \<Longrightarrow> later R cfg s tm tm2"

section \<open>Concrete inputs\<close>

definition both_rules :: PermissionRules where
  "both_rules =
     \<lparr>allow = [''Bash(sudo:*)'', ''Bash''], deny = [''Bash(ls:*)'', ''Bash(sudo:*)''], ask = []\<rparr>"

definition sudo_request :: PermissionContext where
  "sudo_request =
     \<lparr>toolName = ''Bash'', input = JObj [(''command'', JStr ''sudo rm -rf /tmp/x'')],
      memberId = None, sessionId = None, priority = None\<rparr>"

text \<open>The policy of the specification's scenario, and its third request.\<close>

definition scenario_rules :: PermissionRules where
  "scenario_rules = \<lparr>allow = [''Read(*)''], deny = [''Write(.env)''], ask = [''Bash(git push:*)'']\<rparr>"

definition push_request :: PermissionContext where
  "push_request =
     \<lparr>toolName = ''Bash'', input = JObj [(''command'', JStr ''git push origin main'')],
      memberId = None, sessionId = None, priority = None\<rparr>"

text \<open>A Bash request without an input object, under ask rules whose first one reads the command.\<close>

definition ask_only_rules :: PermissionRules where
  "ask_only_rules = \<lparr>allow = [], deny = [], ask = [''Bash(git push:*)'', ''Bash'']\<rparr>"

definition null_request :: PermissionContext where
  "null_request =
     \<lparr>toolName = ''Bash'', input = JNull, memberId = None, sessionId = None, priority = None\<rparr>"

definition null_command_error :: js_error where
  "null_command_error =
     TypeError (''Cannot read properties of null (reading '' @ quo @ ''command'' @ quo @ '')'')"

definition wildcard_rules :: PermissionRules where
  "wildcard_rules = \<lparr>allow = [''Read''], deny = [''*''], ask = []\<rparr>"

definition read_request :: PermissionContext where
  "read_request =
     \<lparr>toolName = ''Read'', input = JObj [(''file_path'', JStr ''README.md'')],
      memberId = None, sessionId = None, priority = None\<rparr>"

definition new_tracker :: CostTracker where
  "new_tracker = \<lparr>processedMessageIds = {}, stepUsages = []\<rparr>"

definition mock_usage :: UsageData where
  "mock_usage = empty_usage\<lparr>input_tokens := Some (Num 100), output_tokens := Some (Num 200)\<rparr>"

definition mock_message :: tracker_message where
  "mock_message = \<lparr>msg_type = ''assistant'', msg_id = ''msg_123'', msg_usage = UsageObject mock_usage\<rparr>"

definition mock_step :: "rounding \<Rightarrow> StepUsage" where
  "mock_step R = \<lparr>messageId = ''msg_123'', timestamp = ''t1'', step_usage = mock_usage,
     costUSD = calculateCost R mock_usage\<rparr>"

definition tracker_after_first :: "rounding \<Rightarrow> CostTracker" where
  "tracker_after_first R = \<lparr>processedMessageIds = {''msg_123''}, stepUsages = [mock_step R]\<rparr>"

text \<open>A roster of one member, an empty roster, and the task of the integration tests.\<close>

definition dev :: TeamMember where
  "dev = \<lparr>member_id = ''dev'', member_name = ''Developer'', role = ''full-stack-developer'',
     specialization = [''implementation''], permissions = [''Read''],
     systemPrompt = ''You build.''\<rparr>"

definition one_member :: TeamConfiguration where
  "one_member = \<lparr>config_workspace = ''/workspace'', members = [dev]\<rparr>"

definition no_members :: TeamConfiguration where
  "no_members = \<lparr>config_workspace = ''/workspace'', members = []\<rparr>"

definition build_task :: TaskRequest where
  "build_task =
     \<lparr>task_kind = Implementation, description = ''Create a new feature'', assignedTo = None,
      task_priority = Medium, files = None, dependencies = None\<rparr>"

definition assigned_task :: TaskRequest where
  "assigned_task = build_task\<lparr>assignedTo := Some ''dev''\<rparr>"

text \<open>
  Three engines: one throws as the mocked \<open>query\<close> of the error-handling tests does, one
  ends without a successful result, one yields the successful result of the tests' mock.
\<close>

definition failing_env :: task_env where
  "failing_env =
     \<lparr>env_taskId = ''task_1'',
      env_query = (\<lambda>prompt member. \<lparr>yielded = [], thrown = Some (Error ''Simulated API failure'')\<rparr>),
      env_duration = 5\<rparr>"

definition silent_env :: task_env where
  "silent_env =
     \<lparr>env_taskId = ''task_2'',
      env_query = (\<lambda>prompt member. \<lparr>yielded = [OtherMessage], thrown = None\<rparr>),
      env_duration = 5\<rparr>"

definition good_env :: task_env where
  "good_env =
     \<lparr>env_taskId = ''task_3'',
      env_query = (\<lambda>prompt member.
        \<lparr>yielded = [OtherMessage, ResultSuccess ''Task completed successfully'' (UsageObject mock_usage)],
         thrown = None\<rparr>),
      env_duration = 5\<rparr>"

definition new_session :: TeamSession where
  "new_session =
     \<lparr>session_id = ''session_1'', session_name = ''Test Project'', startTime = 0,
      workspace = ''/workspace'', activeMembers = [], currentTasks = [], completedTasks = [],
      totalCost = Num 0, totalUsage = empty_usage\<rparr>"

definition started :: TeamManager where
  "started = \<lparr>activeSessions = [''session_1'' \<mapsto> new_session]\<rparr>"

definition busy_session :: TeamSession where
  "busy_session = new_session\<lparr>activeMembers := [''dev''], currentTasks := [assigned_task]\<rparr>"

definition silent_result :: TaskResult where
  "silent_result =
     \<lparr>taskId = ''task_2'', status = Completed, result = Some [],
      usage = UsageObject empty_usage, cost = Some NaN, duration = Some 5\<rparr>"

definition silent_session :: "rounding \<Rightarrow> TeamSession" where
  "silent_session R =
     busy_session\<lparr>completedTasks := [silent_result], totalCost := js_add R (Num 0) (Num 0),
                  totalUsage := aggregateUsage R empty_usage empty_usage\<rparr>"

definition good_result :: "rounding \<Rightarrow> TaskResult" where
  "good_result R =
     \<lparr>taskId = ''task_3'', status = Completed, result = Some ''Task completed successfully'',
      usage = UsageObject mock_usage, cost = Some (calculateCost R mock_usage),
      duration = Some 5\<rparr>"

text \<open>The batch of the specification's scenario: three tasks, the second of which throws.\<close>

definition three_envs :: "nat \<Rightarrow> task_env" where
  "three_envs i = (if i = 1 then failing_env else good_env)"

section \<open>Rule matching and precedence\<close>

lemma firstMatch_hit:
  "\<exists>r \<in> set rs. matchesRule P r t i = Inr True \<Longrightarrow> firstMatch P rs t i \<noteq> Inr None"
  by (induction rs) (auto split: sum.splits bool.splits)

lemma firstMatch_all_false:
  "\<forall>r \<in> set rs. matchesRule P r t i = Inr False \<Longrightarrow> firstMatch P rs t i = Inr None"
  by (induction rs) auto

lemma firstMatch_first:
  "\<forall>r' \<in> set pre. matchesRule P r' t i = Inr False \<Longrightarrow> matchesRule P r t i = Inr True
     \<Longrightarrow> firstMatch P (pre @ r # post) t i = Inr (Some r)"
  by (induction pre) auto

text \<open>
  Whatever ends the loop over the deny rules other than running through all of them, a
  match or an exception, makes the decision a denial.
\<close>

lemma deny_loop_decides:
  assumes "firstMatch P (deny rules) (toolName ctx) (input ctx) \<noteq> Inr None"
  shows "behavior (fst (evaluatePermission P rules ctx auditLog)) = Deny"
proof (cases "firstMatch P (deny rules) (toolName ctx) (input ctx)")
  case (Inl e)
  then show ?thesis
    by (simp add: evaluatePermission_def evaluate_try_def checkDenyRules_def deny_with_def Let_def)
next
  case (Inr m)
  with assms obtain r where "m = Some r" by (cases m) auto
  with Inr show ?thesis
    by (simp add: evaluatePermission_def evaluate_try_def checkDenyRules_def)
qed

lemma parse_sudo: "parseRule ''Bash(sudo:*)'' = Some (''Bash'', Some ''sudo:*'')"
  by (simp add: parseRule_def)

lemma match_sudo:
  "matchesRule P ''Bash(sudo:*)'' (toolName sudo_request) (input sudo_request) = Inr True"
  by (simp add: matchesRule_def parse_sudo sudo_request_def matchesBashRule_def suffix_def)

text \<open>
  C1. If some deny rule matches the request, \<open>evaluatePermission\<close> returns the verdict
  \<open>deny\<close>, whatever the allow and ask rules are: the deny rules are checked first, and an
  earlier deny rule that raises an exception is turned into a denial as well.
\<close>

theorem deny_dominates:
  assumes "\<exists>r \<in> set (deny rules). matchesRule P r (toolName ctx) (input ctx) = Inr True"
  shows "behavior (fst (evaluatePermission P rules ctx auditLog)) = Deny"
  using assms by (intro deny_loop_decides firstMatch_hit)

text \<open>A request that the same rule both allows and denies is denied.\<close>

theorem deny_dominates_witness:
  "\<forall>P auditLog.
     matchesRule P ''Bash(sudo:*)'' (toolName sudo_request) (input sudo_request) = Inr True
     \<and> ''Bash(sudo:*)'' \<in> set (allow both_rules)
     \<and> ''Bash(sudo:*)'' \<in> set (deny both_rules)
     \<and> behavior (fst (evaluatePermission P both_rules sudo_request auditLog)) = Deny"
proof (intro allI conjI)
  fix P :: platform and auditLog :: "audit_entry list"
  show m: "matchesRule P ''Bash(sudo:*)'' (toolName sudo_request) (input sudo_request) = Inr True"
    by (rule match_sudo)
  show "''Bash(sudo:*)'' \<in> set (allow both_rules)"
    by (simp add: both_rules_def)
  show d: "''Bash(sudo:*)'' \<in> set (deny both_rules)"
    by (simp add: both_rules_def)
  from m d have "\<exists>r \<in> set (deny both_rules).
      matchesRule P r (toolName sudo_request) (input sudo_request) = Inr True"
    by blast
  then show "behavior (fst (evaluatePermission P both_rules sudo_request auditLog)) = Deny"
    by (rule deny_dominates)
qed

subsection \<open>Prefix rules for commands\<close>

lemma matchesBashRule_prefix:
  "matchesBashRule P (X @ '':*'') (JStr c) = Inr (c \<noteq> [] \<and> prefix X c)"
  by (simp add: matchesBashRule_def suffix_def)

lemma parse_bash_prefix:
  assumes "CHR '')'' \<notin> set X"
  shows "parseRule (''Bash('' @ X @ '':*)'') = Some (''Bash'', Some (X @ '':*''))"
proof -
  have b: "butlast (X @ '':*)'') = X @ '':*''"
    using butlast_snoc [of "X @ '':*''" "CHR '')''"] by simp
  have l: "last (X @ '':*)'') = CHR '')''"
    by simp
  from assms have n: "CHR '')'' \<notin> set (X @ '':*'')" by simp
  show ?thesis
    using b l n by (simp add: parseRule_def)
qed

lemma matchesRule_bash_prefix:
  assumes "CHR '')'' \<notin> set X"
  shows "matchesRule P (''Bash('' @ X @ '':*)'') ''Bash'' (JObj [(''command'', JStr c)])
          = Inr (c \<noteq> [] \<and> prefix X c)"
proof -
  have p: "parseRule (''Bash('' @ X @ '':*)'') = Some (''Bash'', Some (X @ '':*''))"
    using assms by (rule parse_bash_prefix)
  show ?thesis
    unfolding matchesRule_def p by (simp add: matchesBashRule_prefix)
qed

text \<open>
  C5, as amended. A pattern \<open>X:*\<close> matches a command exactly when the command is not
  empty and starts with \<open>X\<close>; so a command that has \<open>X\<close> only further inside does not
  match. The same holds for the rule \<open>Bash(X:*)\<close> on a Bash request, when \<open>X\<close> has no
  closing parenthesis (a rule with one in its pattern does not parse).
\<close>

theorem prefix_rule_matches:
  "matchesBashRule P (X @ '':*'') (JStr c) = Inr (c \<noteq> [] \<and> prefix X c)
   \<and> (CHR '')'' \<notin> set X \<longrightarrow>
        matchesRule P (''Bash('' @ X @ '':*)'') ''Bash'' (JObj [(''command'', JStr c)])
          = Inr (c \<noteq> [] \<and> prefix X c))"
  using matchesBashRule_prefix matchesRule_bash_prefix by blast

theorem prefix_rule_matches_witness:
  "\<forall>P. matchesBashRule P ''git push:*'' (JStr ''git push origin main'') = Inr True
     \<and> matchesBashRule P ''push:*'' (JStr ''git push origin main'') = Inr False
     \<and> matchesRule P ''Bash(git push:*)'' ''Bash'' (JObj [(''command'', JStr ''git push origin main'')])
          = Inr True"
proof
  fix P
  show "matchesBashRule P ''git push:*'' (JStr ''git push origin main'') = Inr True
     \<and> matchesBashRule P ''push:*'' (JStr ''git push origin main'') = Inr False
     \<and> matchesRule P ''Bash(git push:*)'' ''Bash'' (JObj [(''command'', JStr ''git push origin main'')])
          = Inr True"
    using prefix_rule_matches [of P "''git push''" "''git push origin main''"]
      prefix_rule_matches [of P "''push''" "''git push origin main''"]
    by simp
qed

text \<open>
  The claim as it was stated, match exactly when the command starts with \<open>X\<close>, fails for
  the empty command under the pattern \<open>:*\<close>: the empty string starts with the empty
  prefix, and \<open>matchesBashRule\<close> returns \<open>false\<close> for an empty command before it looks
  at the pattern.
\<close>

theorem prefix_rule_empty_command:
  "\<not> (\<forall>P X c. matchesBashRule P (X @ '':*'') (JStr c) = Inr (prefix X c))"
proof
  assume "\<forall>P X c. matchesBashRule P (X @ '':*'') (JStr c) = Inr (prefix X c)"
  then have "matchesBashRule undefined (([]::string) @ '':*'') (JStr []) = Inr (prefix ([]::string) [])"
    by blast
  then show False by (simp add: matchesBashRule_def)
qed

subsection \<open>The wildcard tool name\<close>

lemma parseRule_star: "parseRule ''*'' = Some (''*'', None)"
  by (simp add: parseRule_def)

lemma matchesRule_star: "matchesRule P ''*'' t i = Inr True"
  by (simp add: matchesRule_def parseRule_star)

text \<open>
  C10. The rule \<open>*\<close> matches every request, whatever its operation kind and input, and a
  policy with \<open>*\<close> among its deny rules denies every request.
\<close>

theorem wildcard_rule_matches_all:
  "matchesRule P ''*'' t i = Inr True \<and>
   (''*'' \<in> set (deny rules) \<longrightarrow> behavior (fst (evaluatePermission P rules ctx auditLog)) = Deny)"
  using matchesRule_star deny_loop_decides firstMatch_hit by blast

theorem wildcard_rule_matches_all_witness:
  "\<forall>P. matchesRule P ''*'' ''AnyTool'' JNull = Inr True
     \<and> matchesRule P ''Read'' (toolName read_request) (input read_request) = Inr True
     \<and> behavior (fst (evaluatePermission P wildcard_rules read_request [])) = Deny"
proof
  fix P
  have "''*'' \<in> set (deny wildcard_rules)"
    by (simp add: wildcard_rules_def)
  moreover have "matchesRule P ''Read'' (toolName read_request) (input read_request) = Inr True"
    by (simp add: matchesRule_def parseRule_def read_request_def)
  ultimately show "matchesRule P ''*'' ''AnyTool'' JNull = Inr True
     \<and> matchesRule P ''Read'' (toolName read_request) (input read_request) = Inr True
     \<and> behavior (fst (evaluatePermission P wildcard_rules read_request [])) = Deny"
    using wildcard_rule_matches_all [of P "''AnyTool''" JNull wildcard_rules read_request "[]"]
    by simp
qed

subsection \<open>Exceptions during evaluation\<close>

text \<open>The \<open>try\<close> block throws exactly when one of its four steps does.\<close>

lemma evaluate_try_throws_iff:
  "evaluate_try P rules ctx = Inl e \<longleftrightarrow>
     checkDenyRules P rules (toolName ctx) (input ctx) = Inl e
     \<or> (checkDenyRules P rules (toolName ctx) (input ctx) = Inr None
        \<and> checkAllowRules P rules (toolName ctx) (input ctx) = Inl e)
     \<or> (checkDenyRules P rules (toolName ctx) (input ctx) = Inr None
        \<and> checkAllowRules P rules (toolName ctx) (input ctx) = Inr None
        \<and> checkAskRules P rules (toolName ctx) (input ctx) = Inl e)
     \<or> (checkDenyRules P rules (toolName ctx) (input ctx) = Inr None
        \<and> checkAllowRules P rules (toolName ctx) (input ctx) = Inr None
        \<and> checkAskRules P rules (toolName ctx) (input ctx) = Inr None
        \<and> applyDefaultPolicy ctx = Inl e)"
  by (auto simp: evaluate_try_def split: sum.splits option.splits prod.splits)

lemma caught_is_denied:
  "evaluate_try P rules ctx = Inl e \<Longrightarrow>
     fst (evaluatePermission P rules ctx auditLog)
       = deny_with (''Permission evaluation error: '' @ error_message e)"
  by (simp add: evaluatePermission_def Let_def)

lemma null_throws:
  "matchesRule P ''Bash(git push:*)'' ''Bash'' JNull = Inl null_command_error"
  by (simp add: matchesRule_def parseRule_def null_command_error_def)

lemma bare_bash: "matchesRule P ''Bash'' ''Bash'' i = Inr True"
  by (simp add: matchesRule_def parseRule_def)

text \<open>
  C6. \<open>evaluatePermission\<close> returns a decision for every request: as a function into
  \<open>PermissionResult\<close> it has no exceptional outcome, since its \<open>catch\<close> handler has no
  step that throws. When a step of the evaluation throws an exception \<open>e\<close> (checking the
  deny rules, then the allow rules, then the ask rules, then the default policy), the
  decision is \<open>deny\<close> and its message contains the message of \<open>e\<close>.
\<close>

theorem evaluatePermission_fails_safe:
  assumes "checkDenyRules P rules (toolName ctx) (input ctx) = Inl e
     \<or> (checkDenyRules P rules (toolName ctx) (input ctx) = Inr None
        \<and> checkAllowRules P rules (toolName ctx) (input ctx) = Inl e)
     \<or> (checkDenyRules P rules (toolName ctx) (input ctx) = Inr None
        \<and> checkAllowRules P rules (toolName ctx) (input ctx) = Inr None
        \<and> checkAskRules P rules (toolName ctx) (input ctx) = Inl e)
     \<or> (checkDenyRules P rules (toolName ctx) (input ctx) = Inr None
        \<and> checkAllowRules P rules (toolName ctx) (input ctx) = Inr None
        \<and> checkAskRules P rules (toolName ctx) (input ctx) = Inr None
        \<and> applyDefaultPolicy ctx = Inl e)"
  shows "behavior (fst (evaluatePermission P rules ctx auditLog)) = Deny
     \<and> (\<exists>m. message (fst (evaluatePermission P rules ctx auditLog)) = Some m
            \<and> sublist (error_message e) m)"
proof -
  from assms have "evaluate_try P rules ctx = Inl e"
    by (simp only: evaluate_try_throws_iff)
  then have r: "fst (evaluatePermission P rules ctx auditLog)
       = deny_with (''Permission evaluation error: '' @ error_message e)"
    by (rule caught_is_denied)
  have "sublist (error_message e) (''Permission evaluation error: '' @ error_message e @ [])"
    by (rule sublist_appendI)
  then have s: "sublist (error_message e) (''Permission evaluation error: '' @ error_message e)"
    by simp
  from r have b: "behavior (fst (evaluatePermission P rules ctx auditLog)) = Deny"
    by (simp add: deny_with_def)
  from r have "message (fst (evaluatePermission P rules ctx auditLog))
       = Some (''Permission evaluation error: '' @ error_message e)"
    by (simp add: deny_with_def)
  with s b show ?thesis by blast
qed

text \<open>
  A Bash request whose input is \<open>null\<close>, under the policy of the specification's
  scenario: reading the command throws while the ask rule is matched.
\<close>

theorem evaluatePermission_fails_safe_witness:
  "\<forall>P auditLog.
     checkAskRules P scenario_rules (toolName null_request) (input null_request)
       = Inl null_command_error
     \<and> behavior (fst (evaluatePermission P scenario_rules null_request auditLog)) = Deny
     \<and> (\<exists>m. message (fst (evaluatePermission P scenario_rules null_request auditLog)) = Some m
            \<and> sublist (error_message null_command_error) m)"
proof (intro allI)
  fix P :: platform and auditLog :: "audit_entry list"
  have d: "checkDenyRules P scenario_rules (toolName null_request) (input null_request) = Inr None"
    by (simp add: checkDenyRules_def scenario_rules_def null_request_def matchesRule_def parseRule_def)
  have a: "checkAllowRules P scenario_rules (toolName null_request) (input null_request) = Inr None"
    by (simp add: checkAllowRules_def scenario_rules_def null_request_def matchesRule_def parseRule_def)
  have k: "checkAskRules P scenario_rules (toolName null_request) (input null_request)
       = Inl null_command_error"
    by (simp add: checkAskRules_def scenario_rules_def null_request_def null_throws)
  from d a k show "checkAskRules P scenario_rules (toolName null_request) (input null_request)
       = Inl null_command_error
     \<and> behavior (fst (evaluatePermission P scenario_rules null_request auditLog)) = Deny
     \<and> (\<exists>m. message (fst (evaluatePermission P scenario_rules null_request auditLog)) = Some m
            \<and> sublist (error_message null_command_error) m)"
    using evaluatePermission_fails_safe
      [of P scenario_rules null_request null_command_error auditLog]
    by simp
qed

subsection \<open>Ask rules\<close>

text \<open>
  C9, as amended. When matching every deny rule and every allow rule returns \<open>false\<close>, and
  an ask rule matches after ask rules that all return \<open>false\<close> (so that no rule raises an
  exception before the match is found), the decision is \<open>allow\<close> without an updated input,
  and its message is \<open>Tool approved (would normally ask):\<close> followed by the matched rule.
  A plain allow, by an allow rule, has no message.
\<close>

theorem ask_rule_is_approved:
  assumes d: "\<forall>r \<in> set (deny rules). matchesRule P r (toolName ctx) (input ctx) = Inr False"
    and a: "\<forall>r \<in> set (allow rules). matchesRule P r (toolName ctx) (input ctx) = Inr False"
    and split: "ask rules = pre @ r # post"
    and pre: "\<forall>r' \<in> set pre. matchesRule P r' (toolName ctx) (input ctx) = Inr False"
    and hit: "matchesRule P r (toolName ctx) (input ctx) = Inr True"
  shows "fst (evaluatePermission P rules ctx auditLog) =
           \<lparr>behavior = Allow, updatedInput = None,
            message = Some (''Tool approved (would normally ask): '' @ r), interrupt = None\<rparr>"
proof -
  have "checkDenyRules P rules (toolName ctx) (input ctx) = Inr None"
    using firstMatch_all_false [OF d] by (simp add: checkDenyRules_def)
  moreover have "checkAllowRules P rules (toolName ctx) (input ctx) = Inr None"
    using firstMatch_all_false [OF a] by (simp add: checkAllowRules_def)
  moreover have "checkAskRules P rules (toolName ctx) (input ctx) = Inr (Some r)"
    using firstMatch_first [OF pre hit] split by (simp add: checkAskRules_def)
  ultimately show ?thesis
    by (simp add: evaluatePermission_def evaluate_try_def)
qed

text \<open>The third request of the specification's scenario.\<close>

theorem ask_rule_is_approved_witness:
  "\<forall>P auditLog.
     ask scenario_rules = [] @ ''Bash(git push:*)'' # []
     \<and> matchesRule P ''Bash(git push:*)'' (toolName push_request) (input push_request) = Inr True
     \<and> matchesRule P ''Write(.env)'' (toolName push_request) (input push_request) = Inr False
     \<and> matchesRule P ''Read(*)'' (toolName push_request) (input push_request) = Inr False
     \<and> fst (evaluatePermission P scenario_rules push_request auditLog) =
           \<lparr>behavior = Allow, updatedInput = None,
            message = Some ''Tool approved (would normally ask): Bash(git push:*)'',
            interrupt = None\<rparr>"
proof (intro allI)
  fix P :: platform and auditLog :: "audit_entry list"
  have s: "ask scenario_rules = [] @ ''Bash(git push:*)'' # []"
    by (simp add: scenario_rules_def)
  have h: "matchesRule P ''Bash(git push:*)'' (toolName push_request) (input push_request) = Inr True"
    by (simp add: matchesRule_def parseRule_def push_request_def matchesBashRule_def suffix_def)
  have w: "matchesRule P ''Write(.env)'' (toolName push_request) (input push_request) = Inr False"
    by (simp add: matchesRule_def parseRule_def push_request_def)
  have r: "matchesRule P ''Read(*)'' (toolName push_request) (input push_request) = Inr False"
    by (simp add: matchesRule_def parseRule_def push_request_def)
  have d: "\<forall>r \<in> set (deny scenario_rules).
      matchesRule P r (toolName push_request) (input push_request) = Inr False"
    using w by (simp add: scenario_rules_def)
  have a: "\<forall>r \<in> set (allow scenario_rules).
      matchesRule P r (toolName push_request) (input push_request) = Inr False"
    using r by (simp add: scenario_rules_def)
  have e: "\<forall>r' \<in> set ([]::string list).
      matchesRule P r' (toolName push_request) (input push_request) = Inr False"
    by simp
  have "fst (evaluatePermission P scenario_rules push_request auditLog) =
           \<lparr>behavior = Allow, updatedInput = None,
            message = Some (''Tool approved (would normally ask): '' @ ''Bash(git push:*)''),
            interrupt = None\<rparr>"
    using d a s e h by (rule ask_rule_is_approved)
  with s h w r show "ask scenario_rules = [] @ ''Bash(git push:*)'' # []
     \<and> matchesRule P ''Bash(git push:*)'' (toolName push_request) (input push_request) = Inr True
     \<and> matchesRule P ''Write(.env)'' (toolName push_request) (input push_request) = Inr False
     \<and> matchesRule P ''Read(*)'' (toolName push_request) (input push_request) = Inr False
     \<and> fst (evaluatePermission P scenario_rules push_request auditLog) =
           \<lparr>behavior = Allow, updatedInput = None,
            message = Some ''Tool approved (would normally ask): Bash(git push:*)'',
            interrupt = None\<rparr>"
    by simp
qed

lemma null_request_denied:
  "fst (evaluatePermission P ask_only_rules null_request auditLog)
     = deny_with (''Permission evaluation error: '' @ error_message null_command_error)"
  by (simp add: evaluatePermission_def evaluate_try_def checkDenyRules_def checkAllowRules_def
      checkAskRules_def ask_only_rules_def null_request_def null_throws Let_def)

text \<open>
  The claim as it was stated, allow whenever no deny rule and no allow rule matches and
  some ask rule does, fails when an ask rule before the matching one raises an exception.
  With the ask rules \<open>Bash(git push:*)\<close> and \<open>Bash\<close> and a Bash request whose input is
  \<open>null\<close>, the rule \<open>Bash\<close> matches, but reading the command for the first rule throws,
  and the decision is the denial of the \<open>catch\<close> handler.
\<close>

theorem ask_rule_after_exception:
  "\<not> (\<forall>P rules ctx auditLog.
        (\<forall>r \<in> set (deny rules). matchesRule P r (toolName ctx) (input ctx) \<noteq> Inr True)
        \<and> (\<forall>r \<in> set (allow rules). matchesRule P r (toolName ctx) (input ctx) \<noteq> Inr True)
        \<and> (\<exists>r \<in> set (ask rules). matchesRule P r (toolName ctx) (input ctx) = Inr True)
        \<longrightarrow> behavior (fst (evaluatePermission P rules ctx auditLog)) = Allow)"
proof
  assume claim: "\<forall>P rules ctx auditLog.
        (\<forall>r \<in> set (deny rules). matchesRule P r (toolName ctx) (input ctx) \<noteq> Inr True)
        \<and> (\<forall>r \<in> set (allow rules). matchesRule P r (toolName ctx) (input ctx) \<noteq> Inr True)
        \<and> (\<exists>r \<in> set (ask rules). matchesRule P r (toolName ctx) (input ctx) = Inr True)
        \<longrightarrow> behavior (fst (evaluatePermission P rules ctx auditLog)) = Allow"
  have "\<exists>r \<in> set (ask ask_only_rules).
      matchesRule undefined r (toolName null_request) (input null_request) = Inr True"
    by (simp add: ask_only_rules_def null_request_def bare_bash)
  moreover have "\<forall>r \<in> set (deny ask_only_rules).
      matchesRule undefined r (toolName null_request) (input null_request) \<noteq> Inr True"
    by (simp add: ask_only_rules_def)
  moreover have "\<forall>r \<in> set (allow ask_only_rules).
      matchesRule undefined r (toolName null_request) (input null_request) \<noteq> Inr True"
    by (simp add: ask_only_rules_def)
  ultimately have "behavior (fst (evaluatePermission undefined ask_only_rules null_request [])) = Allow"
    using claim by blast
  then show False
    by (simp add: null_request_denied deny_with_def)
qed

section \<open>The cost ledger\<close>

lemma recorded_is_skipped:
  "msg_id m \<in> processedMessageIds tracker \<Longrightarrow> processMessage R tracker m now = (None, tracker)"
  by (simp add: processMessage_def split: js_usage.splits)

text \<open>
  An identifier is recorded by the call that returns a step for it, and no call of
  \<open>processMessage\<close> removes an identifier.
\<close>

lemma first_call_records:
  "processMessage R tracker m now = (Some step, tracker1) \<Longrightarrow> msg_id m \<in> processedMessageIds tracker1"
  by (auto simp: processMessage_def Let_def split: js_usage.splits if_splits)

lemma recorded_stays_recorded:
  "i \<in> processedMessageIds tracker \<Longrightarrow> i \<in> processedMessageIds (snd (processMessage R tracker m now))"
  by (auto simp: processMessage_def Let_def split: js_usage.splits)

text \<open>
  C3. A call of \<open>processMessage\<close> with a message whose identifier is already recorded
  returns \<open>null\<close> and leaves the tracker as it was: no step is appended, and the total
  cost and the total usage keep their values.
\<close>

theorem duplicate_message_is_ignored:
  assumes recorded: "msg_id m \<in> processedMessageIds tracker"
  shows "fst (processMessage R tracker m now) = None
     \<and> snd (processMessage R tracker m now) = tracker
     \<and> stepUsages (snd (processMessage R tracker m now)) = stepUsages tracker
     \<and> getTotalCost R (snd (processMessage R tracker m now)) = getTotalCost R tracker
     \<and> getTotalUsage R (snd (processMessage R tracker m now)) = getTotalUsage R tracker"
proof -
  from recorded have "processMessage R tracker m now = (None, tracker)"
    by (rule recorded_is_skipped)
  then show ?thesis by simp
qed

lemma first_mock_call:
  "processMessage R new_tracker mock_message ''t1'' = (Some (mock_step R), tracker_after_first R)"
  by (simp add: processMessage_def new_tracker_def mock_message_def mock_step_def
      tracker_after_first_def Let_def)

text \<open>The message of the test \<open>should ignore duplicate message IDs\<close>, processed twice.\<close>

theorem duplicate_message_is_ignored_witness:
  "\<forall>R. processMessage R new_tracker mock_message ''t1'' = (Some (mock_step R), tracker_after_first R)
     \<and> msg_id mock_message \<in> processedMessageIds (tracker_after_first R)
     \<and> fst (processMessage R (tracker_after_first R) mock_message ''t2'') = None
     \<and> stepUsages (snd (processMessage R (tracker_after_first R) mock_message ''t2'')) = [mock_step R]
     \<and> getTotalCost R (snd (processMessage R (tracker_after_first R) mock_message ''t2''))
         = getTotalCost R (tracker_after_first R)
     \<and> getTotalUsage R (snd (processMessage R (tracker_after_first R) mock_message ''t2''))
         = getTotalUsage R (tracker_after_first R)"
proof
  fix R
  have r: "msg_id mock_message \<in> processedMessageIds (tracker_after_first R)"
    using first_mock_call by (rule first_call_records)
  have s: "stepUsages (tracker_after_first R) = [mock_step R]"
    by (simp add: tracker_after_first_def)
  show "processMessage R new_tracker mock_message ''t1'' = (Some (mock_step R), tracker_after_first R)
     \<and> msg_id mock_message \<in> processedMessageIds (tracker_after_first R)
     \<and> fst (processMessage R (tracker_after_first R) mock_message ''t2'') = None
     \<and> stepUsages (snd (processMessage R (tracker_after_first R) mock_message ''t2'')) = [mock_step R]
     \<and> getTotalCost R (snd (processMessage R (tracker_after_first R) mock_message ''t2''))
         = getTotalCost R (tracker_after_first R)
     \<and> getTotalUsage R (snd (processMessage R (tracker_after_first R) mock_message ''t2''))
         = getTotalUsage R (tracker_after_first R)"
    using duplicate_message_is_ignored [where R = R and now = "''t2''", OF r] first_mock_call r s
    by simp
qed

section \<open>The orchestrator\<close>

subsection \<open>The concrete runs\<close>

lemma started_is_start:
  "started = fst (startTeamSession one_member \<lparr>activeSessions = Map.empty\<rparr>
                    ''Test Project'' ''session_1'' 0)"
  by (simp add: started_def startTeamSession_def new_session_def one_member_def)

lemma reachable_started: "reachable R one_member started"
  unfolding started_is_start by (intro reach_start reach_init)

lemma select_dev: "selectTeamMember one_member build_task = Some dev"
  by (simp add: selectTeamMember_def one_member_def build_task_def dev_def)

lemma dev_id: "member_id dev = ''dev''"
  by (simp add: dev_def)

lemma failing_id: "env_taskId failing_env = ''task_1''"
  by (simp add: failing_env_def)

lemma cost_empty: "calculateCost R empty_usage = NaN"
  by (simp add: calculateCost_def empty_usage_def)

lemma build_failing:
  "buildTaskResult R task member failing_env = Inl (Error ''Simulated API failure'')"
  by (simp add: buildTaskResult_def failing_env_def)

lemma build_silent: "buildTaskResult R task member silent_env = Inr silent_result"
  by (simp add: buildTaskResult_def silent_env_def silent_result_def cost_empty)

lemma build_good: "buildTaskResult R task member good_env = Inr (good_result R)"
  by (simp add: buildTaskResult_def good_env_def good_result_def)

lemma assign_started:
  "assignTask R one_member started ''session_1'' build_task env
     = Inr (fst (executeTask R
                   (started\<lparr>activeSessions := (activeSessions started)(''session_1'' \<mapsto> busy_session)\<rparr>)
                   ''session_1'' assigned_task dev env),
            taskId (snd (executeTask R
                   (started\<lparr>activeSessions := (activeSessions started)(''session_1'' \<mapsto> busy_session)\<rparr>)
                   ''session_1'' assigned_task dev env)))"
  by (simp add: assignTask_def select_dev dev_id started_def busy_session_def assigned_task_def
      new_session_def Let_def case_prod_beta)

lemma silent_run:
  "assignTask R one_member started ''session_1'' build_task silent_env
     = Inr (\<lparr>activeSessions = [''session_1'' \<mapsto> (silent_session R)]\<rparr>, ''task_2'')"
  by (subst assign_started)
    (simp add: executeTask_def build_silent updateSession_def silent_session_def
      started_def silent_result_def busy_session_def new_session_def)

lemma failing_run:
  "assignTask R one_member started ''session_1'' build_task failing_env
     = Inr (\<lparr>activeSessions = [''session_1'' \<mapsto> busy_session]\<rparr>, ''task_1'')"
  by (subst assign_started)
    (simp add: executeTask_def build_failing failedResult_def started_def failing_id)

subsection \<open>A task that fails\<close>

text \<open>
  When the engine throws, or the usage of its result cannot be read, \<open>executeTask\<close>
  returns the failed result and leaves the orchestrator's state as it was: the \<open>catch\<close>
  handler returns without touching the session.
\<close>

lemma failure_leaves_state:
  "buildTaskResult R task member env = Inl e \<Longrightarrow>
     executeTask R tm sid task member env = (tm, failedResult (env_taskId env) e)"
  by (simp add: executeTask_def)

text \<open>
  C2 does not hold of the code. The run of the test \<open>should handle task execution errors
  gracefully\<close>: the engine throws \<open>Simulated API failure\<close>. \<open>executeTask\<close> builds the
  failed result with the error's message in its text, but the session's \<open>completedTasks\<close>
  is still empty after \<open>assignTask\<close> has returned the task identifier.
\<close>

theorem failed_task_is_not_recorded:
  "\<forall>R. assignTask R one_member started ''session_1'' build_task failing_env
       = Inr (\<lparr>activeSessions = [''session_1'' \<mapsto> busy_session]\<rparr>, ''task_1'')
     \<and> completedTasks busy_session = []
     \<and> snd (executeTask R started ''session_1'' assigned_task dev failing_env)
         = \<lparr>taskId = ''task_1'', status = Failed,
            result = Some ''Task failed: Simulated API failure'',
            usage = UsageUndefined, cost = None, duration = None\<rparr>
     \<and> fst (executeTask R started ''session_1'' assigned_task dev failing_env) = started"
  by (simp add: failing_run busy_session_def new_session_def executeTask_def build_failing
      failedResult_def failing_id)

subsection \<open>The running totals of a session\<close>

lemma sum_counted_snoc:
  "sum_of_counted_costs R (ts @ [t]) = js_add R (sum_of_counted_costs R ts) (or_zero (cost t))"
  by (simp add: sum_of_counted_costs_def)

lemma fold_usages_snoc:
  "fold_of_usages R (ts @ [t]) =
     (case usage t of UsageObject u \<Rightarrow> aggregateUsage R (fold_of_usages R ts) u | _ \<Rightarrow> fold_of_usages R ts)"
  by (simp add: fold_of_usages_def split: js_usage.splits)

lemma updateSession_consistent:
  "session_consistent R s \<Longrightarrow> session_consistent R (updateSession R s t)"
  by (simp add: session_consistent_def updateSession_def sum_counted_snoc fold_usages_snoc
      split: js_usage.splits)

lemma executeTask_consistent:
  "consistent R tm \<Longrightarrow> consistent R (fst (executeTask R tm sid task member env))"
  by (auto simp: consistent_def executeTask_def updateSession_consistent
      split: sum.splits option.splits)

lemma assignTask_consistent:
  assumes "consistent R tm" and "assignTask R cfg tm sid task env = Inr (tm', tid)"
  shows "consistent R tm'"
proof -
  from assms(2) obtain session member where
    s: "activeSessions tm sid = Some session" and
    tm': "tm' = fst (executeTask R
        (tm\<lparr>activeSessions := (activeSessions tm)(sid \<mapsto>
            session\<lparr>currentTasks :=
                      currentTasks session @ [task\<lparr>assignedTo := Some (member_id member)\<rparr>],
                    activeMembers := activeMembers session @ [member_id member]\<rparr>)\<rparr>)
        sid (task\<lparr>assignedTo := Some (member_id member)\<rparr>) member env)"
    by (auto simp: assignTask_def Let_def case_prod_beta split: option.splits)
  from assms(1) s have "session_consistent R session"
    by (simp add: consistent_def)
  then have "session_consistent R
      (session\<lparr>currentTasks :=
                 currentTasks session @ [task\<lparr>assignedTo := Some (member_id member)\<rparr>],
               activeMembers := activeMembers session @ [member_id member]\<rparr>)"
    by (simp add: session_consistent_def)
  with assms(1) have "consistent R
      (tm\<lparr>activeSessions := (activeSessions tm)(sid \<mapsto>
            session\<lparr>currentTasks :=
                      currentTasks session @ [task\<lparr>assignedTo := Some (member_id member)\<rparr>],
                    activeMembers := activeMembers session @ [member_id member]\<rparr>)\<rparr>)"
    by (simp add: consistent_def)
  then show ?thesis
    unfolding tm' by (rule executeTask_consistent)
qed

lemma foldl_runJob_consistent:
  "consistent R tm \<Longrightarrow>
     consistent R (foldl (\<lambda>tm' i. if i < n then fst (runJob R sid jobs envs tm' i) else tm') tm finished)"
  by (induction finished arbitrary: tm) (simp_all add: runJob_def executeTask_consistent)

lemma parallel_consistent:
  assumes "consistent R tm"
    and "executeParallelTasks R cfg tm sid tasks envs finished = Inr (tm', results)"
  shows "consistent R tm'"
  using assms
  by (auto simp: executeParallelTasks_def foldl_runJob_consistent split: option.splits)

lemma endSession_consistent:
  assumes "consistent R tm" and "endSession tm sid now written = Inr (tm', report)"
  shows "consistent R tm'"
  using assms
  by (auto simp: endSession_def consistent_def split: option.splits if_splits)

lemma start_consistent:
  "consistent R tm \<Longrightarrow> consistent R (fst (startTeamSession cfg tm sessionName sid now))"
  by (simp add: startTeamSession_def consistent_def session_consistent_def
      sum_of_counted_costs_def fold_of_usages_def)

lemma reachable_consistent: "reachable R cfg tm \<Longrightarrow> consistent R tm"
proof (induction rule: reachable.induct)
  case reach_init
  show ?case by (simp add: consistent_def)
next
  case (reach_start tm sessionName sid now)
  then show ?case by (simp add: start_consistent)
next
  case (reach_assign tm sid task env tm' tid)
  then show ?case by (blast intro: assignTask_consistent)
next
  case (reach_parallel tm finished tasks sid envs tm' results)
  then show ?case by (blast intro: parallel_consistent)
next
  case (reach_end tm sid now written tm' report)
  then show ?case by (blast intro: endSession_consistent)
qed

text \<open>
  What the code keeps: \<open>totalCost\<close> is the sum of \<open>cost || 0\<close> over the completed tasks,
  in the order of the list, and \<open>totalUsage\<close> is the fold of \<open>aggregateUsage\<close> over their
  usages. The sum of the \<open>cost\<close> fields themselves is the same number as long as no
  completed task has the cost \<open>NaN\<close>.
\<close>

lemma totals_follow_updates:
  assumes "reachable R cfg tm" and "getSessionStatus tm sid = Some s"
  shows "totalCost s = sum_of_counted_costs R (completedTasks s)
     \<and> totalUsage s = fold_of_usages R (completedTasks s)"
  using reachable_consistent [OF assms(1)] assms(2)
  by (simp add: consistent_def session_consistent_def getSessionStatus_def)

lemma counted_cost_without_nan:
  "cost t \<noteq> Some NaN \<Longrightarrow> (case cost t of None \<Rightarrow> Num 0 | Some c \<Rightarrow> c) = or_zero (cost t)"
proof (cases "cost t")
  case None
  then show ?thesis by simp
next
  case (Some c)
  assume "cost t \<noteq> Some NaN"
  with Some show ?thesis by (cases c) simp_all
qed

lemma sums_agree_without_nan:
  assumes "\<forall>t \<in> set ts. cost t \<noteq> Some NaN"
  shows "sum_of_costs R ts = sum_of_counted_costs R ts"
  unfolding sum_of_costs_def sum_of_counted_costs_def
  using assms by (intro foldl_cong) (simp_all add: counted_cost_without_nan)

lemma totals_without_nan:
  assumes "reachable R cfg tm" and "getSessionStatus tm sid = Some s"
    and "\<forall>t \<in> set (completedTasks s). cost t \<noteq> Some NaN"
  shows "totalCost s = sum_of_costs R (completedTasks s)
     \<and> totalUsage s = fold_of_usages R (completedTasks s)"
  using totals_follow_updates [OF assms(1) assms(2)] sums_agree_without_nan [OF assms(3)]
  by simp

lemma sum_is_never_nan: "js_add R (Num a) (Num b) \<noteq> NaN"
  by (cases "R (a + b)") simp_all

text \<open>
  C4 does not hold of the code. The engine ends without a successful result, as it does
  when its last message is an error result: \<open>executeTask\<close> leaves the loop with the usage
  \<open>{}\<close> it started from, \<open>calculateCost\<close> of it is \<open>NaN\<close> because it divides the absent
  \<open>input_tokens\<close> and \<open>output_tokens\<close> (it guards only the two cache counters with
  \<open>|| 0\<close>), and the task is recorded as completed with the cost \<open>NaN\<close>. \<open>totalCost\<close>
  grows by \<open>NaN || 0\<close>, which is zero. In the state that \<open>assignTask\<close> leaves, the sum of
  the cost fields of \<open>completedTasks\<close> is \<open>NaN\<close> and \<open>totalCost\<close> is the number
  \<open>0 + 0\<close>.
\<close>

theorem run_without_result_breaks_total_cost:
  "\<forall>R. assignTask R one_member started ''session_1'' build_task silent_env
       = Inr (\<lparr>activeSessions = [''session_1'' \<mapsto> silent_session R]\<rparr>, ''task_2'')
     \<and> reachable R one_member \<lparr>activeSessions = [''session_1'' \<mapsto> silent_session R]\<rparr>
     \<and> completedTasks (silent_session R) = [silent_result]
     \<and> status silent_result = Completed
     \<and> cost silent_result = Some NaN
     \<and> sum_of_costs R (completedTasks (silent_session R)) = NaN
     \<and> totalCost (silent_session R) = js_add R (Num 0) (Num 0)
     \<and> totalCost (silent_session R) \<noteq> sum_of_costs R (completedTasks (silent_session R))"
proof
  fix R
  have run: "assignTask R one_member started ''session_1'' build_task silent_env
       = Inr (\<lparr>activeSessions = [''session_1'' \<mapsto> silent_session R]\<rparr>, ''task_2'')"
    by (rule silent_run)
  have r: "reachable R one_member \<lparr>activeSessions = [''session_1'' \<mapsto> silent_session R]\<rparr>"
    using reachable_started run by (rule reach_assign)
  have c: "completedTasks (silent_session R) = [silent_result]"
    by (simp add: silent_session_def)
  have st: "status silent_result = Completed" and co: "cost silent_result = Some NaN"
    by (simp_all add: silent_result_def)
  have sum: "sum_of_costs R (completedTasks (silent_session R)) = NaN"
    by (simp add: c sum_of_costs_def co)
  have total: "totalCost (silent_session R) = js_add R (Num 0) (Num 0)"
    by (simp add: silent_session_def)
  have "totalCost (silent_session R) \<noteq> NaN"
    unfolding total by (rule sum_is_never_nan)
  with sum have "totalCost (silent_session R) \<noteq> sum_of_costs R (completedTasks (silent_session R))"
    by simp
  with run r c st co sum total
  show "assignTask R one_member started ''session_1'' build_task silent_env
       = Inr (\<lparr>activeSessions = [''session_1'' \<mapsto> silent_session R]\<rparr>, ''task_2'')
     \<and> reachable R one_member \<lparr>activeSessions = [''session_1'' \<mapsto> silent_session R]\<rparr>
     \<and> completedTasks (silent_session R) = [silent_result]
     \<and> status silent_result = Completed
     \<and> cost silent_result = Some NaN
     \<and> sum_of_costs R (completedTasks (silent_session R)) = NaN
     \<and> totalCost (silent_session R) = js_add R (Num 0) (Num 0)
     \<and> totalCost (silent_session R) \<noteq> sum_of_costs R (completedTasks (silent_session R))"
    by blast
qed

subsection \<open>Parallel execution\<close>

lemma select_some: "members cfg \<noteq> [] \<Longrightarrow> selectTeamMember cfg task \<noteq> None"
  by (auto simp: selectTeamMember_def Let_def split: list.splits option.splits)

lemma select_none: "members cfg = [] \<Longrightarrow> selectTeamMember cfg task = None"
  by (simp add: selectTeamMember_def)

lemma assignMembers_some:
  "members cfg \<noteq> [] \<Longrightarrow> \<exists>jobs. assignMembers cfg tasks = Some jobs"
proof (induction tasks)
  case Nil
  show ?case by simp
next
  case (Cons task tasks)
  from Cons.prems obtain m where "selectTeamMember cfg task = Some m"
    using select_some [of cfg task] by auto
  moreover from Cons obtain jobs where "assignMembers cfg tasks = Some jobs"
    by auto
  ultimately show ?case by simp
qed

lemma assignMembers_length:
  "assignMembers cfg tasks = Some jobs \<Longrightarrow> length jobs = length tasks"
  by (induction tasks arbitrary: jobs) (auto split: option.splits)

lemma assignMembers_nth:
  "assignMembers cfg tasks = Some jobs \<Longrightarrow> i < length tasks \<Longrightarrow>
     \<exists>member. selectTeamMember cfg (tasks ! i) = Some member
       \<and> jobs ! i = ((tasks ! i)\<lparr>assignedTo := Some (member_id member)\<rparr>, member)"
proof (induction tasks arbitrary: jobs i)
  case Nil
  then show ?case by simp
next
  case (Cons task tasks)
  then show ?case
    by (cases i) (auto split: option.splits)
qed

lemma executeTask_result:
  "activeSessions tm sid = Some session \<Longrightarrow>
     snd (executeTask R tm sid task member env) = outcome R task member env"
  by (simp add: executeTask_def outcome_def split: sum.splits)

lemma outcome_status:
  "status (outcome R task member env)
     = (if isl (buildTaskResult R task member env) then Failed else Completed)"
  by (auto simp: outcome_def buildTaskResult_def failedResult_def Let_def
      split: sum.splits prod.splits)

text \<open>
  C7, as amended. With a roster that is not empty, \<open>executeParallelTasks\<close> on a live
  session returns as many results as there are tasks, and the result at each index is
  the outcome of the task at that index, with the member selected for it and its own
  engine run: completed, or failed when its own run failed. It does not depend on the
  other tasks of the batch nor on the order in which the tasks finish.
\<close>

theorem parallel_results_in_order:
  assumes roster: "members cfg \<noteq> []" and live: "activeSessions tm sid = Some session"
  shows "\<exists>tm' results.
      executeParallelTasks R cfg tm sid tasks envs finished = Inr (tm', results)
      \<and> length results = length tasks
      \<and> (\<forall>i < length tasks. \<exists>member.
            selectTeamMember cfg (tasks ! i) = Some member
            \<and> results ! i =
                outcome R ((tasks ! i)\<lparr>assignedTo := Some (member_id member)\<rparr>) member (envs i)
            \<and> status (results ! i) \<noteq> InProgress)"
proof -
  from roster obtain jobs where jobs: "assignMembers cfg tasks = Some jobs"
    using assignMembers_some by blast
  then have len: "length jobs = length tasks"
    by (rule assignMembers_length)
  let ?results = "map (\<lambda>i. snd (runJob R sid jobs envs tm i)) [0..<length jobs]"
  have "\<exists>tm'. executeParallelTasks R cfg tm sid tasks envs finished = Inr (tm', ?results)"
    using live jobs by (simp add: executeParallelTasks_def)
  moreover have "length ?results = length tasks"
    using len by simp
  moreover have "\<forall>i < length tasks. \<exists>member.
            selectTeamMember cfg (tasks ! i) = Some member
            \<and> ?results ! i =
                outcome R ((tasks ! i)\<lparr>assignedTo := Some (member_id member)\<rparr>) member (envs i)
            \<and> status (?results ! i) \<noteq> InProgress"
  proof (intro allI impI)
    fix i assume i: "i < length tasks"
    with jobs obtain member where m: "selectTeamMember cfg (tasks ! i) = Some member"
      and j: "jobs ! i = ((tasks ! i)\<lparr>assignedTo := Some (member_id member)\<rparr>, member)"
      using assignMembers_nth by blast
    from i len have "?results ! i = snd (runJob R sid jobs envs tm i)"
      by simp
    also have "\<dots> = outcome R ((tasks ! i)\<lparr>assignedTo := Some (member_id member)\<rparr>) member (envs i)"
      using live j by (simp add: runJob_def executeTask_result)
    finally have r: "?results ! i =
        outcome R ((tasks ! i)\<lparr>assignedTo := Some (member_id member)\<rparr>) member (envs i)" .
    then have "status (?results ! i) \<noteq> InProgress"
      by (simp only: outcome_status) simp
    with m r show "\<exists>member.
            selectTeamMember cfg (tasks ! i) = Some member
            \<and> ?results ! i =
                outcome R ((tasks ! i)\<lparr>assignedTo := Some (member_id member)\<rparr>) member (envs i)
            \<and> status (?results ! i) \<noteq> InProgress"
      by blast
  qed
  ultimately show ?thesis by blast
qed

text \<open>
  The batch of the specification's scenario, finishing in the order third, first, second:
  three results, the second failed, the other two completed.
\<close>

theorem parallel_results_in_order_witness:
  "\<forall>R. \<exists>tm' results.
      executeParallelTasks R one_member started ''session_1'' [build_task, build_task, build_task]
        three_envs [2, 0, 1] = Inr (tm', results)
      \<and> length results = 3
      \<and> results ! 0 = good_result R
      \<and> results ! 1 = failedResult ''task_1'' (Error ''Simulated API failure'')
      \<and> results ! 2 = good_result R"
proof
  fix R
  let ?tasks = "[build_task, build_task, build_task]"
  have roster: "members one_member \<noteq> []"
    by (simp add: one_member_def)
  have live: "activeSessions started ''session_1'' = Some new_session"
    by (simp add: started_def)
  obtain tm' results where
    run: "executeParallelTasks R one_member started ''session_1'' ?tasks three_envs [2, 0, 1]
        = Inr (tm', results)"
    and len: "length results = length ?tasks"
    and each: "\<forall>i < length ?tasks. \<exists>member.
            selectTeamMember one_member (?tasks ! i) = Some member
            \<and> results ! i =
                outcome R ((?tasks ! i)\<lparr>assignedTo := Some (member_id member)\<rparr>) member (three_envs i)
            \<and> status (results ! i) \<noteq> InProgress"
    using parallel_results_in_order
      [where R = R and tasks = ?tasks and envs = three_envs and finished = "[2, 0, 1]",
        OF roster live]
    by blast
  have r0: "results ! 0 = good_result R"
    using each [rule_format, of 0]
    by (simp add: select_dev outcome_def three_envs_def build_good)
  have r1: "results ! 1 = failedResult ''task_1'' (Error ''Simulated API failure'')"
    using each [rule_format, of 1]
    by (simp add: select_dev outcome_def three_envs_def build_failing failing_id)
  have r2: "results ! 2 = good_result R"
    using each [rule_format, of 2]
    by (simp add: select_dev outcome_def three_envs_def build_good)
  from run len r0 r1 r2 show "\<exists>tm' results.
      executeParallelTasks R one_member started ''session_1'' [build_task, build_task, build_task]
        three_envs [2, 0, 1] = Inr (tm', results)
      \<and> length results = 3
      \<and> results ! 0 = good_result R
      \<and> results ! 1 = failedResult ''task_1'' (Error ''Simulated API failure'')
      \<and> results ! 2 = good_result R"
    by simp
qed

text \<open>
  The claim as it was stated, for every batch on a known session, fails for an empty
  roster: \<open>selectTeamMember\<close> returns \<open>undefined\<close>, reading its \<open>id\<close> throws in the
  callback of the first task, and \<open>Promise.all\<close> rejects; no list of results is returned.
\<close>

theorem parallel_with_empty_roster:
  "\<not> (\<forall>R cfg tm sid session tasks envs finished.
        activeSessions tm sid = Some session
        \<longrightarrow> (\<exists>tm' results.
               executeParallelTasks R cfg tm sid tasks envs finished = Inr (tm', results)
               \<and> length results = length tasks))"
proof
  assume claim: "\<forall>R cfg tm sid session tasks envs finished.
        activeSessions tm sid = Some session
        \<longrightarrow> (\<exists>tm' results.
               executeParallelTasks R cfg tm sid tasks envs finished = Inr (tm', results)
               \<and> length results = length tasks)"
  have "activeSessions started ''session_1'' = Some new_session"
    by (simp add: started_def)
  with claim have "\<exists>tm' results.
      executeParallelTasks Finite no_members started ''session_1'' [build_task] (\<lambda>i. good_env) [0]
        = Inr (tm', results)"
    by blast
  moreover have
    "executeParallelTasks Finite no_members started ''session_1'' [build_task] (\<lambda>i. good_env) [0]
      = Inl memberUndefined"
    by (simp add: executeParallelTasks_def started_def select_none no_members_def)
  ultimately show False by simp
qed

subsection \<open>Ending a session\<close>

lemma executeTask_dom:
  "activeSessions (fst (executeTask R tm sid task member env)) x = None
     \<longleftrightarrow> activeSessions tm x = None"
  by (auto simp: executeTask_def split: sum.splits option.splits)

lemma assignTask_dom:
  "assignTask R cfg tm sid task env = Inr (tm', tid) \<Longrightarrow>
     activeSessions tm' x = None \<longleftrightarrow> activeSessions tm x = None"
  by (auto simp: assignTask_def Let_def case_prod_beta executeTask_dom
      split: option.splits if_splits)

lemma foldl_runJob_dom:
  "activeSessions
     (foldl (\<lambda>tm' i. if i < n then fst (runJob R sid jobs envs tm' i) else tm') tm finished) x = None
     \<longleftrightarrow> activeSessions tm x = None"
  by (induction finished arbitrary: tm) (simp_all add: runJob_def executeTask_dom)

lemma parallel_dom:
  "executeParallelTasks R cfg tm sid tasks envs finished = Inr (tm', results) \<Longrightarrow>
     activeSessions tm' x = None \<longleftrightarrow> activeSessions tm x = None"
  by (auto simp: executeParallelTasks_def foldl_runJob_dom split: option.splits)

lemma endSession_dom:
  "endSession tm sid now written = Inr (tm', report) \<Longrightarrow>
     activeSessions tm x = None \<Longrightarrow> activeSessions tm' x = None"
  by (auto simp: endSession_def split: option.splits)

lemma endSession_removes:
  "endSession tm s now written = Inr (tm', report) \<Longrightarrow> activeSessions tm' s = None"
  by (auto simp: endSession_def split: option.splits)

text \<open>Ending a live session completes when the report can be written.\<close>

lemma endSession_completes:
  "activeSessions tm s = Some session \<Longrightarrow>
     endSession tm s now None
       = Inr (tm\<lparr>activeSessions := (activeSessions tm)(s := None)\<rparr>, generateSessionReport session now)"
  by (simp add: endSession_def)

lemma later_absent:
  "later R cfg s tm tm2 \<Longrightarrow> activeSessions tm s = None \<Longrightarrow> activeSessions tm2 s = None"
proof (induction rule: later.induct)
  case later_now
  then show ?case by simp
next
  case (later_start tm1 sid sessionName now)
  then show ?case by (simp add: startTeamSession_def)
next
  case (later_assign tm1 sid task env tm2 tid)
  then show ?case by (simp add: assignTask_dom)
next
  case (later_parallel tm1 sid tasks envs finished tm2 results)
  then show ?case by (simp add: parallel_dom)
next
  case (later_end tm1 sid now written tm2 report)
  then show ?case by (simp add: endSession_dom)
qed

lemma absent_session_operations:
  assumes "activeSessions tm s = None"
  shows "getSessionStatus tm s = None"
    and "assignTask R cfg tm s task env = Inl (sessionNotFound s)"
    and "executeParallelTasks R cfg tm s tasks envs finished = Inl (sessionNotFound s)"
    and "endSession tm s now written = Inl (sessionNotFound s)"
  using assms
  by (simp_all add: getSessionStatus_def assignTask_def executeParallelTasks_def endSession_def)

text \<open>
  C8. Once \<open>endSession\<close> has completed for the session \<open>s\<close>, in the state it leaves and in
  every state that later operations lead to, as long as none of them starts a session
  under the identifier \<open>s\<close> again: \<open>getSessionStatus\<close> returns \<open>null\<close> for \<open>s\<close>, and
  \<open>assignTask\<close>, \<open>executeParallelTasks\<close> and \<open>endSession\<close> on \<open>s\<close> throw the error
  \<open>Session s not found\<close>.
\<close>

theorem ended_session_is_not_found:
  assumes ended: "endSession tm s now written = Inr (tm', report)"
    and after: "later R cfg s tm' tm2"
  shows "getSessionStatus tm2 s = None
     \<and> (\<forall>task env. assignTask R cfg tm2 s task env = Inl (sessionNotFound s))
     \<and> (\<forall>tasks envs finished.
           executeParallelTasks R cfg tm2 s tasks envs finished = Inl (sessionNotFound s))
     \<and> (\<forall>now' written'. endSession tm2 s now' written' = Inl (sessionNotFound s))"
proof -
  from ended have "activeSessions tm' s = None"
    by (rule endSession_removes)
  with after have "activeSessions tm2 s = None"
    by (rule later_absent)
  then show ?thesis
    by (simp add: absent_session_operations)
qed

text \<open>The session of the concrete runs, ended right after its start.\<close>

theorem ended_session_is_not_found_witness:
  "\<forall>R. endSession started ''session_1'' 9 None
       = Inr (\<lparr>activeSessions = Map.empty\<rparr>, generateSessionReport new_session 9)
     \<and> getSessionStatus \<lparr>activeSessions = Map.empty\<rparr> ''session_1'' = None
     \<and> assignTask R one_member \<lparr>activeSessions = Map.empty\<rparr> ''session_1'' build_task good_env
         = Inl (Error ''Session session_1 not found'')
     \<and> executeParallelTasks R one_member \<lparr>activeSessions = Map.empty\<rparr> ''session_1'' [build_task]
           three_envs [0]
         = Inl (Error ''Session session_1 not found'')
     \<and> endSession \<lparr>activeSessions = Map.empty\<rparr> ''session_1'' 10 None
         = Inl (Error ''Session session_1 not found'')"
proof
  fix R
  have e: "endSession started ''session_1'' 9 None
     = Inr (\<lparr>activeSessions = Map.empty\<rparr>, generateSessionReport new_session 9)"
    by (simp add: endSession_def started_def)
  have n: "sessionNotFound ''session_1'' = Error ''Session session_1 not found''"
    by (simp add: sessionNotFound_def)
  show "endSession started ''session_1'' 9 None
       = Inr (\<lparr>activeSessions = Map.empty\<rparr>, generateSessionReport new_session 9)
     \<and> getSessionStatus \<lparr>activeSessions = Map.empty\<rparr> ''session_1'' = None
     \<and> assignTask R one_member \<lparr>activeSessions = Map.empty\<rparr> ''session_1'' build_task good_env
         = Inl (Error ''Session session_1 not found'')
     \<and> executeParallelTasks R one_member \<lparr>activeSessions = Map.empty\<rparr> ''session_1'' [build_task]
           three_envs [0]
         = Inl (Error ''Session session_1 not found'')
     \<and> endSession \<lparr>activeSessions = Map.empty\<rparr> ''session_1'' 10 None
         = Inl (Error ''Session session_1 not found'')"
    using ended_session_is_not_found [where R = R and cfg = one_member, OF e later_now] e n
    by simp
qed

end
